theory Spec2Isabelle
  imports Main
begin

section \<open>processctrl: the process control state machine\<close>

text \<open>
  A shallow embedding of \<^verbatim>\<open>process.go\<close> and of its two platform files (the POSIX one
  and the Windows one, selected by build tag). Every method of \<^verbatim>\<open>*Process\<close> takes the
  lock \<^verbatim>\<open>p.mu\<close> for its whole body (or, for \<^verbatim>\<open>Wait\<close> and \<^verbatim>\<open>Write\<close>, for the
  reads of the fields), so a method is one atomic step on the struct: it takes the struct
  and returns the updated struct.

  The operating system and the packages \<^verbatim>\<open>os\<close>, \<^verbatim>\<open>os/exec\<close> and
  \<^verbatim>\<open>golang.org/x/sys/windows\<close> are outside the repository. What they answer to the calls
  of one method is a parameter of that method (a record \<open>os_env\<close>); which of them a method
  calls, and in which order, is returned as a list of events. A Go runtime panic is the
  left summand of the result.
\<close>

subsection \<open>Data\<close>

text \<open>Errors. \<^verbatim>\<open>fmt.Errorf\<close> with a fixed message, with a wrapped cause (\<^verbatim>\<open>%w\<close>), with a
  formatted status word, and the errors that come from the operating system.\<close>

datatype error =
    Errorf string
  | Wrapf string error
  | Statusf string nat
  | OSError nat

datatype panic = NilDereference | CloseOfClosedChannel | SendOnClosedChannel | MakeChanSize

datatype signal = SIGSTOP | SIGCONT | SIGTERM

datatype access = PROCESS_SUSPEND_RESUME | PROCESS_TERMINATE

datatype stream = Stdout | Stderr

text \<open>The goroutines a successful \<^verbatim>\<open>RunWithContext\<close> starts: the two calls of
  \<^verbatim>\<open>streamOutput\<close> and the completion watcher.\<close>

datatype goroutine = GoStreamOutput stream | GoWatcher

datatype event =
    EvStart
  | EvGo goroutine
  | EvSend stream string
  | EvClosePipe stream
  | EvCloseStdin
  | EvWrite string
  | EvSignal signal
  | EvKill
  | EvWait
  | EvOpenProcess access
  | EvNtSuspendProcess
  | EvNtResumeProcess
  | EvTerminateProcess nat
  | EvCloseHandle
  | EvCloseChan stream

text \<open>\<^verbatim>\<open>os.Process\<close>, \<^verbatim>\<open>os.ProcessState\<close> and \<^verbatim>\<open>exec.Cmd\<close>, as far as the package reads
  them. \<^verbatim>\<open>Cmd.Path\<close> is the program as \<^verbatim>\<open>exec.CommandContext\<close> resolved it,
  \<^verbatim>\<open>Cmd.Args\<close> the program name followed by the arguments. \<^verbatim>\<open>Cmd.Process\<close> is nil
  until \<^verbatim>\<open>Start\<close> succeeded, \<^verbatim>\<open>Cmd.ProcessState\<close> is nil until a \<^verbatim>\<open>Wait\<close> recorded the
  exit.\<close>

record os_Process =
  Pid :: int

record os_ProcessState =
  exitCode :: int

record Cmd =
  Path :: string
  Args :: "string list"
  Process :: "os_Process option"
  ProcessState :: "os_ProcessState option"

text \<open>A \<^verbatim>\<open>chan string\<close>: its capacity and whether it has been closed. Closing a closed
  channel panics, and so does sending on one. The lines that pass through a channel are
  events (\<open>EvSend\<close>), not part of its state.\<close>

record chan =
  capacity :: int
  closed :: bool

text \<open>The \<^verbatim>\<open>io.WriteCloser\<close> behind \<^verbatim>\<open>p.stdin\<close>.\<close>

record WriteCloser =
  wcClosed :: bool

text \<open>\<^verbatim>\<open>type Process struct\<close>. The pointer \<^verbatim>\<open>cmd\<close> and the interface \<^verbatim>\<open>stdin\<close> are nil
  in a new struct; the lock is not a field of the model.\<close>

record Process =
  program :: string
  args :: "string list"
  cmd :: "Cmd option"
  stdout :: chan
  stderr :: chan
  stdin :: "WriteCloser option"
  paused :: bool
  running :: bool
  bufferSize :: int
  channelsClosed :: bool

text \<open>\<^verbatim>\<open>time.Duration\<close> counts nanoseconds.\<close>

type_synonym Duration = int

definition Second :: Duration where
  "Second = 1000000000"

definition defaultKillTimeout :: Duration where
  "defaultKillTimeout = 5 * Second"

text \<open>What the world outside answers during one method call. Each method makes each of
  these calls at most once, so one answer per call is enough. \<open>resolved_path\<close> is
  the path \<^verbatim>\<open>exec.CommandContext\<close> finds for the program (the name itself when it finds
  none).
  \<open>exit_after\<close> is the time from the start of the \<^verbatim>\<open>select\<close> until \<^verbatim>\<open>cmd.Wait()\<close> has
  delivered on \<^verbatim>\<open>done\<close> (None: it never does); \<open>tie_done\<close> is the choice of \<^verbatim>\<open>select\<close>
  when both cases are ready at the same instant. \<open>wait_state\<close> is the value of
  \<^verbatim>\<open>cmd.ProcessState\<close> once the first \<^verbatim>\<open>cmd.Wait()\<close> of a started command has
  returned (None when waiting for the process failed), \<open>wait_err\<close> the error it
  returns.\<close>

record os_env =
  resolved_path :: string
  stdout_pipe_err :: "error option"
  stderr_pipe_err :: "error option"
  stdin_pipe_err :: "error option"
  start_err :: "error option"
  new_pid :: int
  signal_err :: "error option"
  open_err :: "error option"
  nt_status :: nat
  terminate_err :: "error option"
  exit_after :: "nat option"
  tie_done :: bool
  wait_state :: "os_ProcessState option"
  wait_err :: "error option"
  kill_err :: "error option"
  write_err :: "error option"

text \<open>The result of a method: a panic, or the returned value, the struct afterwards and
  the calls made to the outside.\<close>

type_synonym 'r result = "panic + ('r \<times> Process \<times> event list)"

subsection \<open>Construction\<close>

text \<open>\<^verbatim>\<open>make(chan string, n)\<close> panics ("makechan: size out of range") for a negative
  \<open>n\<close> and for an \<open>n\<close> whose buffer cannot be addressed: the runtime refuses when the
  16 bytes of each string header times \<open>n\<close> exceed its largest allocation less the
  channel header. The figures are those of the 64-bit platforms the package builds for
  (largest allocation \<open>2 ^ 48\<close> bytes, header 96 bytes). A capacity below the bound that
  the machine has no memory for ends the program with a fatal error; that is not
  modelled.\<close>

definition maxChanCap :: int where
  "maxChanCap = (2 ^ 48 - 96) div 16"

definition NewWithBuffer :: "int \<Rightarrow> string \<Rightarrow> string list \<Rightarrow> panic + Process" where
  "NewWithBuffer bufSize prog as =
     (if bufSize < 0 \<or> maxChanCap < bufSize then Inl MakeChanSize
      else Inr \<lparr> program = prog, args = as, cmd = None,
                 stdout = \<lparr> capacity = bufSize, closed = False \<rparr>,
                 stderr = \<lparr> capacity = bufSize, closed = False \<rparr>,
                 stdin = None, paused = False, running = False,
                 bufferSize = bufSize, channelsClosed = False \<rparr>)"

definition New :: "string \<Rightarrow> string list \<Rightarrow> panic + Process" where
  "New prog as = NewWithBuffer 0 prog as"

subsection \<open>Queries\<close>

definition IsRunning :: "Process \<Rightarrow> bool" where
  "IsRunning p = running p"

definition IsPaused :: "Process \<Rightarrow> bool" where
  "IsPaused p = paused p"

text \<open>\<^verbatim>\<open>if p.cmd.Process != nil { return p.cmd.Process.Pid }; return -1\<close>. The field
  \<^verbatim>\<open>Process\<close> is read through the pointer \<^verbatim>\<open>p.cmd\<close>, which is itself nil until
  \<^verbatim>\<open>RunWithContext\<close> has assigned it.\<close>

definition PID :: "Process \<Rightarrow> panic + int" where
  "PID p =
     (case cmd p of
        None \<Rightarrow> Inl NilDereference
      | Some c \<Rightarrow> (case Process c of Some pr \<Rightarrow> Inr (Pid pr) | None \<Rightarrow> Inr (- 1)))"

subsection \<open>Starting\<close>

text \<open>\<^verbatim>\<open>RunWithContext\<close>. The only guard is \<^verbatim>\<open>if p.running\<close>. The new \<^verbatim>\<open>exec.Cmd\<close> is
  stored in \<^verbatim>\<open>p.cmd\<close> before the pipes are made, and \<^verbatim>\<open>p.stdin\<close> before the process is
  started, so a failed start leaves both behind. The three returned values are the two
  channels and the error. After a successful start it sets \<^verbatim>\<open>running\<close> and starts three
  goroutines, in this order: \<^verbatim>\<open>streamOutput\<close> on the stdout pipe and \<^verbatim>\<open>p.stdout\<close>,
  \<^verbatim>\<open>streamOutput\<close> on the stderr pipe and \<^verbatim>\<open>p.stderr\<close>, and the completion watcher. The
  channels are the ones made by \<^verbatim>\<open>NewWithBuffer\<close>, whatever their state. What the
  goroutines do happens after the return: it is \<open>streamOutput\<close> and
  \<open>completionWatcher\<close> below.\<close>

definition RunWithContext ::
  "os_env \<Rightarrow> Process \<Rightarrow> (chan option \<times> chan option \<times> error option) result" where
  "RunWithContext env p =
     (if running p then Inr ((None, None, Some (Errorf ''process already running'')), p, [])
      else
        let c = \<lparr> Path = resolved_path env, Args = program p # args p,
                  Process = None, ProcessState = None \<rparr>;
            p1 = p\<lparr> cmd := Some c \<rparr>
        in case stdout_pipe_err env of
             Some e \<Rightarrow> Inr ((None, None, Some (Wrapf ''failed to create stdout pipe'' e)), p1, [])
           | None \<Rightarrow>
         (case stderr_pipe_err env of
             Some e \<Rightarrow> Inr ((None, None, Some (Wrapf ''failed to create stderr pipe'' e)), p1,
                            [EvClosePipe Stdout])
           | None \<Rightarrow>
         (case stdin_pipe_err env of
             Some e \<Rightarrow> Inr ((None, None, Some (Wrapf ''failed to create stdin pipe'' e)), p1,
                            [EvClosePipe Stdout, EvClosePipe Stderr])
           | None \<Rightarrow>
         (case start_err env of
             Some e \<Rightarrow> Inr ((None, None, Some (Wrapf ''failed to start process'' e)),
                            p1\<lparr> stdin := Some \<lparr> wcClosed = True \<rparr> \<rparr>,
                            [EvStart, EvClosePipe Stdout, EvClosePipe Stderr, EvCloseStdin])
           | None \<Rightarrow> Inr ((Some (stdout p), Some (stderr p), None),
                            p1\<lparr> cmd := Some (c\<lparr> Process := Some \<lparr> Pid = new_pid env \<rparr> \<rparr>),
                                stdin := Some \<lparr> wcClosed = False \<rparr>,
                                running := True \<rparr>,
                            [EvStart, EvGo (GoStreamOutput Stdout), EvGo (GoStreamOutput Stderr),
                             EvGo GoWatcher])))))"

definition Run :: "os_env \<Rightarrow> Process \<Rightarrow> (chan option \<times> chan option \<times> error option) result" where
  "Run env p = RunWithContext env p"

subsection \<open>Streaming\<close>

text \<open>\<^verbatim>\<open>streamOutput(r, ch, wg)\<close>: every line the scanner finds in the pipe is sent on
  the channel. The reader is the pipe's name and the lines the process writes to it. A
  send on a closed channel panics, and a panic in a goroutine ends the program. (A send
  nobody receives blocks the goroutine; the function is what happens when the consumer
  keeps reading.)\<close>

type_synonym Reader = "stream \<times> string list"

fun streamOutput :: "Reader \<Rightarrow> chan \<Rightarrow> panic + event list" where
  "streamOutput (s, []) ch = Inr []"
| "streamOutput (s, l # ls) ch =
     (if closed ch then Inl SendOnClosedChannel
      else case streamOutput (s, ls) ch of
             Inl e \<Rightarrow> Inl e
           | Inr t \<Rightarrow> Inr (EvSend s l # t))"

subsection \<open>Closing the channels; the completion watcher\<close>

definition close_chan :: "chan \<Rightarrow> panic + chan" where
  "close_chan ch = (if closed ch then Inl CloseOfClosedChannel else Inr (ch\<lparr> closed := True \<rparr>))"

definition closeChannels :: "Process \<Rightarrow> unit result" where
  "closeChannels p =
     (if \<not> channelsClosed p then
        (case close_chan (stdout p) of
           Inl e \<Rightarrow> Inl e
         | Inr so \<Rightarrow>
             (case close_chan (stderr p) of
                Inl e \<Rightarrow> Inl e
              | Inr se \<Rightarrow> Inr ((), p\<lparr> stdout := so, stderr := se, channelsClosed := True \<rparr>,
                              [EvCloseChan Stdout, EvCloseChan Stderr])))
      else Inr ((), p, []))"

text \<open>The goroutine started by a successful \<^verbatim>\<open>RunWithContext\<close>, from the moment its
  \<^verbatim>\<open>select\<close> returns. \<open>cancelled\<close> says that the case \<^verbatim>\<open>ctx.Done()\<close> fired: then the process
  is killed and the error discarded. After that the deferred function runs: it clears the
  two flags, closes \<^verbatim>\<open>p.stdin\<close> when it is not nil, and calls \<^verbatim>\<open>closeChannels\<close>.\<close>

definition completionWatcher :: "bool \<Rightarrow> Process \<Rightarrow> unit result" where
  "completionWatcher cancelled p =
     (let dereferenced = (case cmd p of None \<Rightarrow> False | Some c \<Rightarrow> Process c \<noteq> None)
      in if cancelled \<and> \<not> dereferenced then Inl NilDereference
         else
           let p1 = p\<lparr> running := False, paused := False,
                      stdin := (case stdin p of None \<Rightarrow> None
                                | Some w \<Rightarrow> Some (w\<lparr> wcClosed := True \<rparr>)) \<rparr>;
               t1 = (if cancelled then [EvKill] else []) @
                    (case stdin p of None \<Rightarrow> [] | Some w \<Rightarrow> [EvCloseStdin])
           in case closeChannels p1 of
                Inl e \<Rightarrow> Inl e
              | Inr (u, p2, t2) \<Rightarrow> Inr ((), p2, t1 @ t2))"

subsection \<open>Termination\<close>

text \<open>The race \<^verbatim>\<open>select { case <-done: ... case <-time.After(timeout): ... }\<close>. A timer
  with a duration of zero or less is ready at once.\<close>

definition done_first :: "os_env \<Rightarrow> Duration \<Rightarrow> bool" where
  "done_first env timeout =
     (case exit_after env of
        None \<Rightarrow> False
      | Some d \<Rightarrow> int d < max 0 timeout \<or> (int d = max 0 timeout \<and> tie_done env))"

text \<open>The last four lines of both \<^verbatim>\<open>killWithSignal\<close>: \<^verbatim>\<open>err := p.cmd.Process.Kill()\<close>,
  the flags cleared when it is nil. \<open>tr\<close> are the calls made before.\<close>

definition forceKill :: "os_env \<Rightarrow> Process \<Rightarrow> event list \<Rightarrow> (error option) result" where
  "forceKill env p tr =
     (case kill_err env of
        None \<Rightarrow> Inr (None, p\<lparr> running := False, paused := False \<rparr>, tr @ [EvKill])
      | Some e \<Rightarrow> Inr (Some e, p, tr @ [EvKill]))"

text \<open>\<^verbatim>\<open>exec.Cmd.Wait\<close>, of the standard library, as the package sees it. On a command
  that was not started, or that has been waited for already, it only returns its error.
  Otherwise it waits for the process, stores what the system reports in
  \<^verbatim>\<open>ProcessState\<close> and closes the parent's ends of the pipes made by \<^verbatim>\<open>StdinPipe\<close>,
  \<^verbatim>\<open>StdoutPipe\<close> and \<^verbatim>\<open>StderrPipe\<close>: the third component says that it did so.\<close>

definition cmd_Wait :: "os_env \<Rightarrow> Cmd \<Rightarrow> error option \<times> Cmd \<times> bool" where
  "cmd_Wait env c =
     (if Process c = None then (Some (Errorf ''exec: not started''), c, False)
      else if ProcessState c \<noteq> None then (Some (Errorf ''exec: Wait was already called''), c, False)
      else (wait_err env, c\<lparr> ProcessState := wait_state env \<rparr>, True))"

text \<open>The struct once \<^verbatim>\<open>cmd.Wait()\<close> has returned: \<^verbatim>\<open>p.cmd\<close> points to the command as
  the call left it, and \<^verbatim>\<open>p.stdin\<close>, the pipe that command's \<^verbatim>\<open>StdinPipe\<close> made, is
  closed when the call closed the pipes.\<close>

definition waited_for :: "Cmd \<Rightarrow> bool \<Rightarrow> Process \<Rightarrow> Process" where
  "waited_for c' pipes_closed p =
     p\<lparr> cmd := Some c',
        stdin := (if pipes_closed
                  then (case stdin p of None \<Rightarrow> None | Some w \<Rightarrow> Some (w\<lparr> wcClosed := True \<rparr>))
                  else stdin p) \<rparr>"

text \<open>The exit seen on \<^verbatim>\<open>done\<close>: the \<^verbatim>\<open>cmd.Wait()\<close> of the goroutine has returned; both
  flags are cleared.\<close>

definition exited :: "os_env \<Rightarrow> Cmd \<Rightarrow> Process \<Rightarrow> Process" where
  "exited env c p =
     (case cmd_Wait env c of
        (err, c', pipes_closed) \<Rightarrow>
          (waited_for c' pipes_closed p)\<lparr> running := False, paused := False \<rparr>)"

text \<open>\<^verbatim>\<open>killWithSignal\<close> of the POSIX file. When the timer wins the race the goroutine
  is still inside \<^verbatim>\<open>cmd.Wait()\<close> at the return: what that call stores later is not part
  of the result.\<close>

definition killWithSignal_unix ::
  "os_env \<Rightarrow> Duration \<Rightarrow> bool \<Rightarrow> Process \<Rightarrow> (error option) result" where
  "killWithSignal_unix env timeout graceful p =
     (if \<not> running p then Inr (Some (Errorf ''process is not running''), p, [])
      else
        case cmd p of
          None \<Rightarrow> Inl NilDereference
        | Some c \<Rightarrow>
       (case Process c of
          None \<Rightarrow> Inl NilDereference
        | Some pr \<Rightarrow>
            if graceful then
              (case signal_err env of
                 Some e \<Rightarrow> Inr (Some (Wrapf ''failed to send SIGTERM'' e), p, [EvSignal SIGTERM])
               | None \<Rightarrow>
                   if done_first env timeout
                   then Inr (None, exited env c p, [EvSignal SIGTERM, EvWait])
                   else forceKill env p [EvSignal SIGTERM, EvWait])
            else forceKill env p []))"

text \<open>\<^verbatim>\<open>killWithSignal\<close> of the Windows file. The goroutine calling \<^verbatim>\<open>cmd.Wait()\<close> is
  started first; the results of \<^verbatim>\<open>OpenProcess\<close>, \<^verbatim>\<open>TerminateProcess\<close> and
  \<^verbatim>\<open>CloseHandle\<close> are not looked at, except that a failed \<^verbatim>\<open>OpenProcess\<close> skips the other
  two.\<close>

definition killWithSignal_windows ::
  "os_env \<Rightarrow> Duration \<Rightarrow> bool \<Rightarrow> Process \<Rightarrow> (error option) result" where
  "killWithSignal_windows env timeout graceful p =
     (if \<not> running p then Inr (Some (Errorf ''process is not running''), p, [])
      else
        case cmd p of
          None \<Rightarrow> Inl NilDereference
        | Some c \<Rightarrow>
       (case Process c of
          None \<Rightarrow> Inl NilDereference
        | Some pr \<Rightarrow>
            if graceful then
              (let tr = [EvWait, EvOpenProcess PROCESS_TERMINATE] @
                        (if open_err env = None then [EvTerminateProcess 1, EvCloseHandle] else [])
               in if done_first env timeout
                  then Inr (None, exited env c p, tr)
                  else forceKill env p tr)
            else forceKill env p []))"

datatype platform = Unix | Windows

definition killWithSignal ::
  "platform \<Rightarrow> os_env \<Rightarrow> Duration \<Rightarrow> bool \<Rightarrow> Process \<Rightarrow> (error option) result" where
  "killWithSignal pf env timeout graceful p =
     (case pf of
        Unix \<Rightarrow> killWithSignal_unix env timeout graceful p
      | Windows \<Rightarrow> killWithSignal_windows env timeout graceful p)"

definition Kill :: "platform \<Rightarrow> os_env \<Rightarrow> Process \<Rightarrow> (error option) result" where
  "Kill pf env p = killWithSignal pf env defaultKillTimeout True p"

definition KillWithTimeout ::
  "platform \<Rightarrow> os_env \<Rightarrow> Duration \<Rightarrow> Process \<Rightarrow> (error option) result" where
  "KillWithTimeout pf env timeout p = killWithSignal pf env timeout False p"

definition Terminate :: "platform \<Rightarrow> os_env \<Rightarrow> Process \<Rightarrow> (error option) result" where
  "Terminate pf env p = killWithSignal pf env defaultKillTimeout True p"

subsection \<open>Pause and resume\<close>

text \<open>Whether \<^verbatim>\<open>p.cmd.Process\<close> can be dereferenced.\<close>

definition bound :: "Process \<Rightarrow> bool" where
  "bound p = (case cmd p of None \<Rightarrow> False | Some c \<Rightarrow> Process c \<noteq> None)"

text \<open>The POSIX file: one signal, \<^verbatim>\<open>SIGSTOP\<close> or \<^verbatim>\<open>SIGCONT\<close>.\<close>

definition Pause_unix :: "os_env \<Rightarrow> Process \<Rightarrow> (error option) result" where
  "Pause_unix env p =
     (if \<not> running p \<or> paused p
      then Inr (Some (Errorf ''process not running or already paused''), p, [])
      else if \<not> bound p then Inl NilDereference
      else case signal_err env of
             Some e \<Rightarrow> Inr (Some (Wrapf ''failed to pause process'' e), p, [EvSignal SIGSTOP])
           | None \<Rightarrow> Inr (None, p\<lparr> paused := True \<rparr>, [EvSignal SIGSTOP]))"

definition Resume_unix :: "os_env \<Rightarrow> Process \<Rightarrow> (error option) result" where
  "Resume_unix env p =
     (if \<not> running p \<or> \<not> paused p
      then Inr (Some (Errorf ''process not running or not paused''), p, [])
      else if \<not> bound p then Inl NilDereference
      else case signal_err env of
             Some e \<Rightarrow> Inr (Some (Wrapf ''failed to resume process'' e), p, [EvSignal SIGCONT])
           | None \<Rightarrow> Inr (None, p\<lparr> paused := False \<rparr>, [EvSignal SIGCONT]))"

text \<open>The Windows file: \<^verbatim>\<open>OpenProcess\<close>, the native call, and the deferred
  \<^verbatim>\<open>CloseHandle\<close>; a status other than zero is the failure.\<close>

definition Pause_windows :: "os_env \<Rightarrow> Process \<Rightarrow> (error option) result" where
  "Pause_windows env p =
     (if \<not> running p \<or> paused p
      then Inr (Some (Errorf ''process not running or already paused''), p, [])
      else if \<not> bound p then Inl NilDereference
      else case open_err env of
             Some e \<Rightarrow> Inr (Some (Wrapf ''failed to open process for suspend'' e), p,
                            [EvOpenProcess PROCESS_SUSPEND_RESUME])
           | None \<Rightarrow>
               if nt_status env \<noteq> 0
               then Inr (Some (Statusf ''NtSuspendProcess failed: status=0x%.8X'' (nt_status env)), p,
                         [EvOpenProcess PROCESS_SUSPEND_RESUME, EvNtSuspendProcess, EvCloseHandle])
               else Inr (None, p\<lparr> paused := True \<rparr>,
                         [EvOpenProcess PROCESS_SUSPEND_RESUME, EvNtSuspendProcess, EvCloseHandle]))"

definition Resume_windows :: "os_env \<Rightarrow> Process \<Rightarrow> (error option) result" where
  "Resume_windows env p =
     (if \<not> running p \<or> \<not> paused p
      then Inr (Some (Errorf ''process not running or not paused''), p, [])
      else if \<not> bound p then Inl NilDereference
      else case open_err env of
             Some e \<Rightarrow> Inr (Some (Wrapf ''failed to open process for resume'' e), p,
                            [EvOpenProcess PROCESS_SUSPEND_RESUME])
           | None \<Rightarrow>
               if nt_status env \<noteq> 0
               then Inr (Some (Statusf ''NtResumeProcess failed: status=0x%.8X'' (nt_status env)), p,
                         [EvOpenProcess PROCESS_SUSPEND_RESUME, EvNtResumeProcess, EvCloseHandle])
               else Inr (None, p\<lparr> paused := False \<rparr>,
                         [EvOpenProcess PROCESS_SUSPEND_RESUME, EvNtResumeProcess, EvCloseHandle]))"

definition Pause :: "platform \<Rightarrow> os_env \<Rightarrow> Process \<Rightarrow> (error option) result" where
  "Pause pf env p = (case pf of Unix \<Rightarrow> Pause_unix env p | Windows \<Rightarrow> Pause_windows env p)"

definition Resume :: "platform \<Rightarrow> os_env \<Rightarrow> Process \<Rightarrow> (error option) result" where
  "Resume pf env p = (case pf of Unix \<Rightarrow> Resume_unix env p | Windows \<Rightarrow> Resume_windows env p)"

subsection \<open>Wait and Write\<close>

text \<open>\<^verbatim>\<open>return cmd.ProcessState, cmd.Wait()\<close>: the call is made first and the field is
  read once it has returned, so the state returned is the one the command holds after
  the wait. \<^verbatim>\<open>cmd\<close> is the pointer copied from \<^verbatim>\<open>p.cmd\<close>, so what \<^verbatim>\<open>cmd.Wait()\<close>
  stores is stored in the struct \<^verbatim>\<open>p.cmd\<close> points to. How long the call blocks is not
  part of the model.\<close>

definition Wait ::
  "os_env \<Rightarrow> Process \<Rightarrow> (os_ProcessState option \<times> error option) result" where
  "Wait env p =
     (if \<not> running p then Inr ((None, Some (Errorf ''process is not running'')), p, [])
      else
        case cmd p of
          None \<Rightarrow> Inl NilDereference
        | Some c \<Rightarrow>
            (case cmd_Wait env c of
               (err, c', pipes_closed) \<Rightarrow>
                 Inr ((ProcessState c', err), waited_for c' pipes_closed p, [EvWait])))"

definition Write :: "os_env \<Rightarrow> string \<Rightarrow> Process \<Rightarrow> (error option) result" where
  "Write env data p =
     (if \<not> running p then Inr (Some (Errorf ''process is not running''), p, [])
      else case stdin p of
             None \<Rightarrow> Inr (Some (Errorf ''stdin not available''), p, [])
           | Some w \<Rightarrow> Inr (write_err env, p, [EvWrite data]))"

definition WriteString :: "os_env \<Rightarrow> string \<Rightarrow> Process \<Rightarrow> (error option) result" where
  "WriteString env s p = Write env s p"

subsection \<open>Histories\<close>

text \<open>One step of a handle's life: a call of a public method by its owner, one of the
  two \<^verbatim>\<open>streamOutput\<close> goroutines sending the lines it has read, or the completion
  watcher reaching its cleanup. A panic ends the history. The goroutines exist only
  after a successful start; the histories do not keep track of that, so they are more
  than the program can do.\<close>

datatype op =
    OpRun os_env
  | OpPause os_env
  | OpResume os_env
  | OpKill os_env
  | OpKillWithTimeout os_env Duration
  | OpTerminate os_env
  | OpWait os_env
  | OpWrite os_env string
  | OpIsRunning
  | OpIsPaused
  | OpPID
  | OpStream stream "string list"
  | OpWatcher bool

definition drop_value :: "'r result \<Rightarrow> panic + (Process \<times> event list)" where
  "drop_value r = (case r of Inl e \<Rightarrow> Inl e | Inr (v, p, t) \<Rightarrow> Inr (p, t))"

fun exec_op :: "platform \<Rightarrow> op \<Rightarrow> Process \<Rightarrow> panic + (Process \<times> event list)" where
  "exec_op pf (OpRun env) p = drop_value (RunWithContext env p)"
| "exec_op pf (OpPause env) p = drop_value (Pause pf env p)"
| "exec_op pf (OpResume env) p = drop_value (Resume pf env p)"
| "exec_op pf (OpKill env) p = drop_value (Kill pf env p)"
| "exec_op pf (OpKillWithTimeout env t) p = drop_value (KillWithTimeout pf env t p)"
| "exec_op pf (OpTerminate env) p = drop_value (Terminate pf env p)"
| "exec_op pf (OpWait env) p = drop_value (Wait env p)"
| "exec_op pf (OpWrite env s) p = drop_value (WriteString env s p)"
| "exec_op pf OpIsRunning p = Inr (p, [])"
| "exec_op pf OpIsPaused p = Inr (p, [])"
| "exec_op pf OpPID p = (case PID p of Inl e \<Rightarrow> Inl e | Inr n \<Rightarrow> Inr (p, []))"
| "exec_op pf (OpStream s ls) p =
     (case streamOutput (s, ls) (case s of Stdout \<Rightarrow> stdout p | Stderr \<Rightarrow> stderr p) of
        Inl e \<Rightarrow> Inl e
      | Inr t \<Rightarrow> Inr (p, t))"
| "exec_op pf (OpWatcher cancelled) p = drop_value (completionWatcher cancelled p)"

fun run_ops :: "platform \<Rightarrow> op list \<Rightarrow> Process \<Rightarrow> panic + (Process \<times> event list)" where
  "run_ops pf [] p = Inr (p, [])"
| "run_ops pf (x # xs) p =
     (case exec_op pf x p of
        Inl e \<Rightarrow> Inl e
      | Inr (p1, t1) \<Rightarrow>
          (case run_ops pf xs p1 of
             Inl e \<Rightarrow> Inl e
           | Inr (p2, t2) \<Rightarrow> Inr (p2, t1 @ t2)))"

text \<open>An environment in which every call succeeds: the process gets the id 4242 and exits
  with code 0 one millisecond into a race.\<close>

definition env_ok :: os_env where
  "env_ok = \<lparr> resolved_path = ''/bin/echo'', stdout_pipe_err = None, stderr_pipe_err = None, stdin_pipe_err = None,
              start_err = None, new_pid = 4242, signal_err = None, open_err = None,
              nt_status = 0, terminate_err = None, exit_after = Some 1000000,
              tie_done = False, wait_state = Some \<lparr> exitCode = 0 \<rparr>, wait_err = None,
              kill_err = None, write_err = None \<rparr>"

text \<open>The handle of \<^verbatim>\<open>New("echo", "test")\<close>, and the same handle once started.\<close>

definition fresh :: Process where
  "fresh = \<lparr> program = ''echo'', args = [''test''], cmd = None,
             stdout = \<lparr> capacity = 0, closed = False \<rparr>,
             stderr = \<lparr> capacity = 0, closed = False \<rparr>,
             stdin = None, paused = False, running = False,
             bufferSize = 0, channelsClosed = False \<rparr>"

definition started :: Process where
  "started = fresh\<lparr> cmd := Some \<lparr> Path = ''/bin/echo'', Args = [''echo'', ''test''],
                                   Process = Some \<lparr> Pid = 4242 \<rparr>, ProcessState = None \<rparr>,
                     stdin := Some \<lparr> wcClosed = False \<rparr>, running := True \<rparr>"

subsection \<open>Reading results; invariants; sample environments\<close>

definition trace_of :: "'r result \<Rightarrow> event list" where
  "trace_of r = (case r of Inl e \<Rightarrow> [] | Inr (v, p, t) \<Rightarrow> t)"

text \<open>A result without its events: the panic, or the returned value and the struct.\<close>

definition outcome_of :: "'r result \<Rightarrow> panic + ('r \<times> Process)" where
  "outcome_of r = (case r of Inl e \<Rightarrow> Inl e | Inr (v, p, t) \<Rightarrow> Inr (v, p))"

text \<open>The flag \<^verbatim>\<open>channelsClosed\<close> tells the truth about both channels.\<close>

definition chans_consistent :: "Process \<Rightarrow> bool" where
  "chans_consistent p =
     (closed (stdout p) = channelsClosed p \<and> closed (stderr p) = channelsClosed p)"

text \<open>A paused handle is running, and a running handle has a process to signal.\<close>

definition flags_ok :: "Process \<Rightarrow> bool" where
  "flags_ok p = ((paused p \<longrightarrow> running p) \<and> (running p \<longrightarrow> bound p))"

text \<open>\<^verbatim>\<open>cmd.Wait()\<close> fails and records no state (errno 10, no child processes).\<close>

definition env_wait_fails :: os_env where
  "env_wait_fails = env_ok\<lparr> wait_state := None, wait_err := Some (OSError 10) \<rparr>"

text \<open>\<^verbatim>\<open>TerminateProcess\<close> is refused (error 5, access denied); the process exits by
  itself one millisecond later.\<close>

definition env_term_fails :: os_env where
  "env_term_fails = env_ok\<lparr> terminate_err := Some (OSError 5) \<rparr>"

text \<open>The process never exits and \<^verbatim>\<open>Process.Kill()\<close> fails (errno 1).\<close>

definition env_kill_fails :: os_env where
  "env_kill_fails = env_ok\<lparr> exit_after := None, kill_err := Some (OSError 1) \<rparr>"

text \<open>\<^verbatim>\<open>Process.Signal\<close> fails (errno 3, no such process).\<close>

definition env_signal_fails :: os_env where
  "env_signal_fails = env_ok\<lparr> signal_err := Some (OSError 3) \<rparr>"

text \<open>The started handle after a wait that recorded exit code 0 and closed the pipes;
  the same with the flag \<^verbatim>\<open>running\<close> cleared; the started handle paused; the handle
  after the watcher's cleanup; and that handle started a second time.\<close>

definition waited :: Process where
  "waited = started\<lparr> cmd := Some \<lparr> Path = ''/bin/echo'', Args = [''echo'', ''test''],
                                    Process = Some \<lparr> Pid = 4242 \<rparr>,
                                    ProcessState = Some \<lparr> exitCode = 0 \<rparr> \<rparr>,
                     stdin := Some \<lparr> wcClosed = True \<rparr> \<rparr>"

definition stopped :: Process where
  "stopped = waited\<lparr> running := False \<rparr>"

definition suspended :: Process where
  "suspended = started\<lparr> paused := True \<rparr>"

definition cleaned :: Process where
  "cleaned = started\<lparr> running := False, stdin := Some \<lparr> wcClosed = True \<rparr>,
                       stdout := \<lparr> capacity = 0, closed = True \<rparr>,
                       stderr := \<lparr> capacity = 0, closed = True \<rparr>,
                       channelsClosed := True \<rparr>"

definition restarted :: Process where
  "restarted = cleaned\<lparr> stdin := Some \<lparr> wcClosed = False \<rparr>, running := True \<rparr>"

text \<open>The system accepts the suspend or resume request of the platform: the signal is
  delivered, or the process is opened and the native call returns status zero.\<close>

definition backend_ok :: "platform \<Rightarrow> os_env \<Rightarrow> bool" where
  "backend_ok pf env =
     (case pf of
        Unix \<Rightarrow> signal_err env = None
      | Windows \<Rightarrow> open_err env = None \<and> nt_status env = 0)"

text \<open>The step is a call of \<^verbatim>\<open>Pause\<close> that returns nil; and: no step of the history is
  one.\<close>

definition Pause_succeeds :: "platform \<Rightarrow> op \<Rightarrow> Process \<Rightarrow> bool" where
  "Pause_succeeds pf x p =
     (case x of
        OpPause env \<Rightarrow> (case Pause pf env p of Inr (None, p', t) \<Rightarrow> True | _ \<Rightarrow> False)
      | _ \<Rightarrow> False)"

fun no_Pause_succeeded :: "platform \<Rightarrow> op list \<Rightarrow> Process \<Rightarrow> bool" where
  "no_Pause_succeeded pf [] p = True"
| "no_Pause_succeeded pf (x # xs) p =
     (\<not> Pause_succeeds pf x p \<and>
      (case exec_op pf x p of
         Inl e \<Rightarrow> True
       | Inr (p1, t) \<Rightarrow> no_Pause_succeeded pf xs p1))"

section \<open>Properties\<close>

subsection \<open>What each method does to the struct\<close>

lemmas sample_defs = env_ok_def env_wait_fails_def env_term_fails_def env_kill_fails_def
  env_signal_fails_def fresh_def started_def waited_def stopped_def suspended_def cleaned_def
  restarted_def

lemmas kill_defs = killWithSignal_def killWithSignal_unix_def killWithSignal_windows_def
  forceKill_def

lemmas wait_defs = cmd_Wait_def waited_for_def

lemma exited_fields:
  "\<not> running (exited env c p) \<and> \<not> paused (exited env c p)
   \<and> stdout (exited env c p) = stdout p \<and> stderr (exited env c p) = stderr p
   \<and> channelsClosed (exited env c p) = channelsClosed p"
  by (simp add: exited_def wait_defs split: prod.splits)

lemmas pause_defs = Pause_def Resume_def Pause_unix_def Resume_unix_def
  Pause_windows_def Resume_windows_def

lemma fresh_New: "New ''echo'' [''test''] = Inr fresh"
  by (simp add: New_def NewWithBuffer_def maxChanCap_def fresh_def)

lemma started_Run:
  "RunWithContext env_ok fresh =
     Inr ((Some (stdout fresh), Some (stderr fresh), None), started,
          [EvStart, EvGo (GoStreamOutput Stdout), EvGo (GoStreamOutput Stderr), EvGo GoWatcher])"
  by (simp add: RunWithContext_def fresh_def started_def env_ok_def)

lemma started_flags: "running started \<and> \<not> paused started \<and> bound started"
  by (simp add: started_def fresh_def bound_def)

lemma NewWithBuffer_init:
  "NewWithBuffer n prog as = Inr p0 \<Longrightarrow>
     flags_ok p0 \<and> chans_consistent p0 \<and> \<not> channelsClosed p0 \<and> \<not> running p0 \<and> \<not> paused p0"
  by (auto simp: NewWithBuffer_def flags_ok_def chans_consistent_def split: if_splits)

lemma drop_value_Inr:
  "drop_value r = Inr (p', tr) \<Longrightarrow> \<exists>v. r = Inr (v, p', tr)"
  by (auto simp: drop_value_def split: sum.splits)

lemma drop_value_Inl:
  "drop_value r = Inl e \<Longrightarrow> r = Inl e"
  by (auto simp: drop_value_def split: sum.splits)

lemma killWithSignal_unix_cases:
  assumes "killWithSignal_unix env t g p = Inr (r, p', tr)"
  shows "(p' = p \<or> r = None \<and> running p \<and> bound p \<and> \<not> running p' \<and> \<not> paused p'
            \<and> stdout p' = stdout p \<and> stderr p' = stderr p
            \<and> channelsClosed p' = channelsClosed p)
         \<and> (\<forall>s. EvCloseChan s \<notin> set tr)"
  using assms
  by (auto simp: killWithSignal_unix_def forceKill_def exited_fields bound_def
      split: if_splits option.splits)

lemma killWithSignal_windows_cases:
  assumes "killWithSignal_windows env t g p = Inr (r, p', tr)"
  shows "(p' = p \<or> r = None \<and> running p \<and> bound p \<and> \<not> running p' \<and> \<not> paused p'
            \<and> stdout p' = stdout p \<and> stderr p' = stderr p
            \<and> channelsClosed p' = channelsClosed p)
         \<and> (\<forall>s. EvCloseChan s \<notin> set tr)"
  using assms
  by (auto simp: killWithSignal_windows_def forceKill_def exited_fields bound_def Let_def
      split: if_splits option.splits)

lemma killWithSignal_cases:
  assumes "killWithSignal pf env t g p = Inr (r, p', tr)"
  shows "(p' = p \<or> r = None \<and> running p \<and> bound p \<and> \<not> running p' \<and> \<not> paused p'
            \<and> stdout p' = stdout p \<and> stderr p' = stderr p
            \<and> channelsClosed p' = channelsClosed p)
         \<and> (\<forall>s. EvCloseChan s \<notin> set tr)"
proof (cases pf)
  case Unix
  with assms have "killWithSignal_unix env t g p = Inr (r, p', tr)"
    by (simp add: killWithSignal_def)
  then show ?thesis by (rule killWithSignal_unix_cases)
next
  case Windows
  with assms have "killWithSignal_windows env t g p = Inr (r, p', tr)"
    by (simp add: killWithSignal_def)
  then show ?thesis by (rule killWithSignal_windows_cases)
qed

lemma killWithSignal_panic:
  "killWithSignal pf env t g p = Inl e \<Longrightarrow> e = NilDereference"
  by (cases pf)
     (auto simp: killWithSignal_def killWithSignal_unix_def killWithSignal_windows_def
        forceKill_def Let_def split: if_splits option.splits)

lemma Pause_cases:
  assumes "Pause pf env p = Inr (r, p', tr)"
  shows "(r \<noteq> None \<and> p' = p
          \<or> r = None \<and> running p \<and> \<not> paused p \<and> bound p \<and> p' = p\<lparr> paused := True \<rparr>)
         \<and> (\<forall>s. EvCloseChan s \<notin> set tr)"
  using assms
  by (cases pf) (auto simp: pause_defs split: if_splits option.splits)

lemma Resume_cases:
  assumes "Resume pf env p = Inr (r, p', tr)"
  shows "(r \<noteq> None \<and> p' = p
          \<or> r = None \<and> running p \<and> paused p \<and> bound p \<and> p' = p\<lparr> paused := False \<rparr>)
         \<and> (\<forall>s. EvCloseChan s \<notin> set tr)"
  using assms
  by (cases pf) (auto simp: pause_defs split: if_splits option.splits)

lemma Pause_panic: "Pause pf env p = Inl e \<Longrightarrow> e = NilDereference"
  by (cases pf) (auto simp: pause_defs split: if_splits option.splits)

lemma Resume_panic: "Resume pf env p = Inl e \<Longrightarrow> e = NilDereference"
  by (cases pf) (auto simp: pause_defs split: if_splits option.splits)

lemma RunWithContext_cases:
  assumes "RunWithContext env p = Inr (r, p', tr)"
  shows "(running p \<and> p' = p \<and> tr = []) \<or>
         (\<not> running p \<and> (running p' \<longrightarrow> bound p') \<and> paused p' = paused p
            \<and> stdout p' = stdout p \<and> stderr p' = stderr p
            \<and> channelsClosed p' = channelsClosed p \<and> (\<forall>s. EvCloseChan s \<notin> set tr))"
  using assms
  by (auto simp: RunWithContext_def Let_def bound_def split: if_splits option.splits)

lemma RunWithContext_no_panic: "RunWithContext env p \<noteq> Inl e"
  by (auto simp: RunWithContext_def Let_def split: option.splits)

lemma closeChannels_cases:
  assumes "chans_consistent p"
  shows "\<exists>p'. closeChannels p =
             Inr ((), p', if channelsClosed p then [] else [EvCloseChan Stdout, EvCloseChan Stderr])
           \<and> chans_consistent p' \<and> channelsClosed p'
           \<and> running p' = running p \<and> paused p' = paused p"
  using assms
  by (auto simp: closeChannels_def close_chan_def chans_consistent_def)

lemma completionWatcher_cases:
  assumes "chans_consistent p"
  shows "completionWatcher b p = Inl NilDereference \<or>
         (\<exists>p' tr. completionWatcher b p = Inr ((), p', tr)
            \<and> chans_consistent p' \<and> channelsClosed p' \<and> \<not> running p' \<and> \<not> paused p'
            \<and> count_list tr (EvCloseChan Stdout) = (if channelsClosed p then 0 else 1)
            \<and> count_list tr (EvCloseChan Stderr) = (if channelsClosed p then 0 else 1))"
proof -
  let ?p1 = "p\<lparr> running := False, paused := False,
                 stdin := (case stdin p of None \<Rightarrow> None
                           | Some w \<Rightarrow> Some (w\<lparr> wcClosed := True \<rparr>)) \<rparr>"
  have c1: "chans_consistent ?p1"
    using assms by (simp add: chans_consistent_def)
  from closeChannels_cases [OF c1] obtain p' where
    cc: "closeChannels ?p1 =
           Inr ((), p', if channelsClosed ?p1 then [] else [EvCloseChan Stdout, EvCloseChan Stderr])"
    and rest: "chans_consistent p'" "channelsClosed p'" "running p' = running ?p1"
      "paused p' = paused ?p1"
    by blast
  show ?thesis
  proof (cases "b \<and> \<not> bound p")
    case True
    then show ?thesis by (simp add: completionWatcher_def bound_def)
  next
    case False
    then have "completionWatcher b p =
        Inr ((), p', ((if b then [EvKill] else []) @
                      (case stdin p of None \<Rightarrow> [] | Some w \<Rightarrow> [EvCloseStdin])) @
                     (if channelsClosed p then [] else [EvCloseChan Stdout, EvCloseChan Stderr]))"
      using cc by (auto simp: completionWatcher_def bound_def Let_def)
    with rest show ?thesis
      by (auto split: option.splits)
  qed
qed

lemma completionWatcher_flags:
  assumes "completionWatcher b p = Inr (u, p', tr)"
  shows "\<not> running p' \<and> \<not> paused p'"
  using assms
  by (auto simp: completionWatcher_def closeChannels_def close_chan_def Let_def
      split: if_splits sum.splits)

lemma Wait_cases:
  assumes "Wait env p = Inr (r, p', tr)"
  shows "running p' = running p \<and> paused p' = paused p \<and> stdout p' = stdout p
         \<and> stderr p' = stderr p \<and> channelsClosed p' = channelsClosed p
         \<and> bound p' = bound p \<and> (\<forall>s. EvCloseChan s \<notin> set tr)"
  using assms
  by (auto simp: Wait_def wait_defs bound_def split: if_splits option.splits prod.splits)

lemma Wait_panic: "Wait env p = Inl e \<Longrightarrow> e = NilDereference"
  by (auto simp: Wait_def split: if_splits option.splits prod.splits)

lemma streamOutput_trace:
  "streamOutput r ch = Inr t \<Longrightarrow> \<forall>s. EvCloseChan s \<notin> set t"
  by (induction r ch arbitrary: t rule: streamOutput.induct)
     (auto split: if_splits sum.splits)

lemma streamOutput_panic:
  "streamOutput r ch = Inl e \<Longrightarrow> e = SendOnClosedChannel"
  by (induction r ch rule: streamOutput.induct)
     (auto split: if_splits sum.splits)

lemma Write_cases:
  assumes "Write env s p = Inr (r, p', tr)"
  shows "p' = p \<and> (\<forall>s. EvCloseChan s \<notin> set tr)"
  using assms
  by (auto simp: Write_def split: if_splits option.splits)

lemma Write_no_panic: "Write env s p \<noteq> Inl e"
  by (auto simp: Write_def split: option.splits)

subsection \<open>Steps and histories\<close>

text \<open>Every step that is not the watcher's leaves the channels alone and changes the
  flags as its method does.\<close>

lemma exec_op_cases:
  assumes "exec_op pf x p = Inr (p', tr)"
  shows "(\<exists>b. x = OpWatcher b) \<or>
         ((p' = p
           \<or> running p \<and> bound p \<and> \<not> running p' \<and> \<not> paused p'
           \<or> running p \<and> bound p \<and> running p' \<and> bound p' \<and> paused p' \<noteq> paused p
           \<or> \<not> running p \<and> (running p' \<longrightarrow> bound p') \<and> paused p' = paused p
           \<or> running p' = running p \<and> paused p' = paused p \<and> bound p' = bound p)
          \<and> stdout p' = stdout p \<and> stderr p' = stderr p
          \<and> channelsClosed p' = channelsClosed p \<and> (\<forall>s. EvCloseChan s \<notin> set tr))"
proof (cases x)
  case (OpRun env)
  with assms obtain v where "RunWithContext env p = Inr (v, p', tr)"
    by (auto dest: drop_value_Inr)
  from RunWithContext_cases [OF this] show ?thesis
    by auto
next
  case (OpPause env)
  with assms obtain v where "Pause pf env p = Inr (v, p', tr)"
    by (auto dest: drop_value_Inr)
  from Pause_cases [OF this] show ?thesis
    by (auto simp: bound_def)
next
  case (OpResume env)
  with assms obtain v where "Resume pf env p = Inr (v, p', tr)"
    by (auto dest: drop_value_Inr)
  from Resume_cases [OF this] show ?thesis
    by (auto simp: bound_def)
next
  case (OpKill env)
  with assms obtain v where "killWithSignal pf env defaultKillTimeout True p = Inr (v, p', tr)"
    by (auto simp: Kill_def dest: drop_value_Inr)
  from killWithSignal_cases [OF this] show ?thesis
    by auto
next
  case (OpKillWithTimeout env t)
  with assms obtain v where "killWithSignal pf env t False p = Inr (v, p', tr)"
    by (auto simp: KillWithTimeout_def dest: drop_value_Inr)
  from killWithSignal_cases [OF this] show ?thesis
    by auto
next
  case (OpTerminate env)
  with assms obtain v where "killWithSignal pf env defaultKillTimeout True p = Inr (v, p', tr)"
    by (auto simp: Terminate_def dest: drop_value_Inr)
  from killWithSignal_cases [OF this] show ?thesis
    by auto
next
  case (OpWait env)
  with assms obtain v where "Wait env p = Inr (v, p', tr)"
    by (auto dest: drop_value_Inr)
  from Wait_cases [OF this] show ?thesis
    by auto
next
  case (OpStream s ls)
  with assms have "p' = p"
    and "streamOutput (s, ls) (case s of Stdout \<Rightarrow> stdout p | Stderr \<Rightarrow> stderr p) = Inr tr"
    by (auto split: sum.splits)
  with streamOutput_trace show ?thesis
    by blast
next
  case (OpWrite env s)
  with assms obtain v where "Write env s p = Inr (v, p', tr)"
    by (auto simp: WriteString_def dest: drop_value_Inr)
  from Write_cases [OF this] show ?thesis
    by auto
next
  case OpIsRunning
  with assms show ?thesis by auto
next
  case OpIsPaused
  with assms show ?thesis by auto
next
  case OpPID
  with assms show ?thesis by (auto split: sum.splits)
next
  case (OpWatcher b)
  then show ?thesis by simp
qed

lemma exec_op_flags:
  assumes "exec_op pf x p = Inr (p', tr)"
  shows "(flags_ok p \<longrightarrow> flags_ok p')
         \<and> (running p \<and> \<not> running p' \<longrightarrow> \<not> paused p')
         \<and> (\<not> paused p \<and> paused p' \<longrightarrow> running p \<and> running p')"
proof (cases "\<exists>b. x = OpWatcher b")
  case True
  then obtain b where "x = OpWatcher b" ..
  with assms obtain v where "completionWatcher b p = Inr (v, p', tr)"
    by (auto dest: drop_value_Inr)
  from completionWatcher_flags [OF this] show ?thesis
    by (auto simp: flags_ok_def)
next
  case False
  with exec_op_cases [OF assms] show ?thesis
    by (auto simp: flags_ok_def)
qed

lemma run_ops_flags:
  "run_ops pf ops p = Inr (p', tr) \<Longrightarrow> flags_ok p \<Longrightarrow> flags_ok p'"
proof (induction ops arbitrary: p tr)
  case Nil
  then show ?case by simp
next
  case (Cons x xs)
  from Cons.prems(1) obtain p1 t1 t2 where
    s1: "exec_op pf x p = Inr (p1, t1)" and s2: "run_ops pf xs p1 = Inr (p', t2)"
    by (auto split: sum.splits)
  from exec_op_flags [OF s1] Cons.prems(2) have "flags_ok p1" by blast
  with Cons.IH [OF s2] show ?case .
qed

text \<open>Every running handle made by \<^verbatim>\<open>NewWithBuffer\<close> has its process bound: the
  hypothesis \<open>bound p\<close> of the theorems below costs nothing.\<close>

lemma running_is_bound:
  assumes "NewWithBuffer n prog as = Inr p0" and "run_ops pf ops p0 = Inr (p, tr)"
    and "running p"
  shows "bound p"
proof -
  from assms(1) have "flags_ok p0" using NewWithBuffer_init by blast
  with assms(2) have "flags_ok p" by (rule run_ops_flags)
  with assms(3) show ?thesis by (simp add: flags_ok_def)
qed

lemma exec_op_chans:
  assumes "exec_op pf x p = Inr (p', tr)" and "chans_consistent p"
  shows "chans_consistent p' \<and> (channelsClosed p \<longrightarrow> channelsClosed p')
         \<and> count_list tr (EvCloseChan s) = (if channelsClosed p' \<and> \<not> channelsClosed p then 1 else 0)"
proof (cases "\<exists>b. x = OpWatcher b")
  case True
  then obtain b where "x = OpWatcher b" ..
  with assms obtain v where w: "completionWatcher b p = Inr (v, p', tr)"
    by (auto dest: drop_value_Inr)
  from completionWatcher_cases [OF assms(2), of b] w show ?thesis
    by (cases s) auto
next
  case False
  with exec_op_cases [OF assms(1)] have
    "stdout p' = stdout p \<and> stderr p' = stderr p \<and> channelsClosed p' = channelsClosed p
     \<and> (\<forall>s. EvCloseChan s \<notin> set tr)"
    by blast
  with assms(2) show ?thesis
    by (simp add: chans_consistent_def count_list_0_iff)
qed

lemma run_ops_chans:
  "run_ops pf ops p = Inr (p', tr) \<Longrightarrow> chans_consistent p \<Longrightarrow>
     chans_consistent p' \<and> (channelsClosed p \<longrightarrow> channelsClosed p')
     \<and> count_list tr (EvCloseChan s) = (if channelsClosed p' \<and> \<not> channelsClosed p then 1 else 0)"
proof (induction ops arbitrary: p tr)
  case Nil
  then show ?case by auto
next
  case (Cons x xs)
  from Cons.prems(1) obtain p1 t1 t2 where
    s1: "exec_op pf x p = Inr (p1, t1)" and s2: "run_ops pf xs p1 = Inr (p', t2)"
    and tr: "tr = t1 @ t2"
    by (auto split: sum.splits)
  note h1 = exec_op_chans [OF s1 Cons.prems(2), of s]
  then have c1: "chans_consistent p1" by simp
  note h2 = Cons.IH [OF s2 c1]
  from h1 have m1: "channelsClosed p \<longrightarrow> channelsClosed p1"
    and n1: "count_list t1 (EvCloseChan s) = (if channelsClosed p1 \<and> \<not> channelsClosed p then 1 else 0)"
    by simp_all
  from h2 have c2: "chans_consistent p'" and m2: "channelsClosed p1 \<longrightarrow> channelsClosed p'"
    and n2: "count_list t2 (EvCloseChan s) = (if channelsClosed p' \<and> \<not> channelsClosed p1 then 1 else 0)"
    by simp_all
  have "count_list tr (EvCloseChan s) = (if channelsClosed p' \<and> \<not> channelsClosed p then 1 else 0)"
    unfolding tr count_list_append n1 n2 using m1 m2
    by (cases "channelsClosed p"; cases "channelsClosed p1"; cases "channelsClosed p'") simp_all
  with c2 m1 m2 show ?case by blast
qed

lemma exec_op_no_double_close:
  assumes "chans_consistent p"
  shows "exec_op pf x p \<noteq> Inl CloseOfClosedChannel"
proof (cases x)
  case (OpWatcher b)
  from completionWatcher_cases [OF assms, of b] show ?thesis
    using OpWatcher by (auto simp: drop_value_def)
next
  case (OpRun env)
  then show ?thesis
    using RunWithContext_no_panic by (auto dest: drop_value_Inl)
next
  case (OpPause env)
  then show ?thesis
    by (auto dest!: drop_value_Inl Pause_panic)
next
  case (OpResume env)
  then show ?thesis
    by (auto dest!: drop_value_Inl Resume_panic)
next
  case (OpKill env)
  then show ?thesis
    by (auto simp: Kill_def dest!: drop_value_Inl killWithSignal_panic)
next
  case (OpKillWithTimeout env t)
  then show ?thesis
    by (auto simp: KillWithTimeout_def dest!: drop_value_Inl killWithSignal_panic)
next
  case (OpTerminate env)
  then show ?thesis
    by (auto simp: Terminate_def dest!: drop_value_Inl killWithSignal_panic)
next
  case (OpWait env)
  then show ?thesis
    by (auto dest!: drop_value_Inl Wait_panic)
next
  case (OpStream s ls)
  then show ?thesis
    by (auto split: sum.splits dest!: streamOutput_panic)
next
  case (OpWrite env s)
  then show ?thesis
    using Write_no_panic by (auto simp: WriteString_def dest: drop_value_Inl)
next
  case OpPID
  then show ?thesis by (auto simp: PID_def split: sum.splits option.splits)
qed auto

lemma run_ops_no_double_close:
  "chans_consistent p \<Longrightarrow> run_ops pf ops p \<noteq> Inl CloseOfClosedChannel"
proof (induction ops arbitrary: p)
  case Nil
  then show ?case by simp
next
  case (Cons x xs)
  show ?case
  proof (cases "exec_op pf x p")
    case (Inl e)
    with exec_op_no_double_close [OF Cons.prems, of pf x] show ?thesis by auto
  next
    case (Inr r)
    obtain p1 t1 where r: "r = (p1, t1)" by (cases r)
    from exec_op_chans [of pf x p p1 t1] Inr r Cons.prems have "chans_consistent p1" by simp
    from Cons.IH [OF this] Inr r show ?thesis by (auto split: sum.splits)
  qed
qed

subsection \<open>Concrete runs\<close>

lemma Wait_started:
  "Wait env_ok started = Inr ((Some \<lparr> exitCode = 0 \<rparr>, None), waited, [EvWait])"
  by (simp add: Wait_def wait_defs sample_defs)

lemma Wait_started_fails:
  "Wait env_wait_fails started =
     Inr ((None, Some (OSError 10)), started\<lparr> stdin := Some \<lparr> wcClosed = True \<rparr> \<rparr>, [EvWait])"
  by (simp add: Wait_def wait_defs sample_defs)

lemma Pause_started:
  "Pause pf env_ok started = Inr (None, suspended,
     case pf of Unix \<Rightarrow> [EvSignal SIGSTOP]
     | Windows \<Rightarrow> [EvOpenProcess PROCESS_SUSPEND_RESUME, EvNtSuspendProcess, EvCloseHandle])"
  by (cases pf) (simp_all add: pause_defs bound_def sample_defs)

lemma Resume_suspended:
  "Resume pf env_ok suspended = Inr (None, started,
     case pf of Unix \<Rightarrow> [EvSignal SIGCONT]
     | Windows \<Rightarrow> [EvOpenProcess PROCESS_SUSPEND_RESUME, EvNtResumeProcess, EvCloseHandle])"
  by (cases pf) (simp_all add: pause_defs bound_def sample_defs)

lemma watcher_started:
  "completionWatcher False started =
     Inr ((), cleaned, [EvCloseStdin, EvCloseChan Stdout, EvCloseChan Stderr])"
  by (simp add: completionWatcher_def closeChannels_def close_chan_def sample_defs)

lemma watcher_cleaned:
  "completionWatcher b cleaned = Inr ((), cleaned, (if b then [EvKill] else []) @ [EvCloseStdin])"
  by (simp add: completionWatcher_def closeChannels_def close_chan_def sample_defs)

lemma Run_cleaned:
  "RunWithContext env_ok cleaned =
     Inr ((Some (stdout cleaned), Some (stderr cleaned), None), restarted,
          [EvStart, EvGo (GoStreamOutput Stdout), EvGo (GoStreamOutput Stderr), EvGo GoWatcher])"
  by (simp add: RunWithContext_def sample_defs)

lemma Kill_suspended_unix:
  "Kill Unix env_ok suspended = Inr (None, stopped, [EvSignal SIGTERM, EvWait])"
  by (simp add: Kill_def kill_defs exited_def wait_defs done_first_def defaultKillTimeout_def
      Second_def sample_defs)

lemma Kill_started_windows_term_fails:
  "Kill Windows env_term_fails started =
     Inr (None, stopped,
          [EvWait, EvOpenProcess PROCESS_TERMINATE, EvTerminateProcess 1, EvCloseHandle])"
  by (simp add: Kill_def kill_defs exited_def wait_defs done_first_def defaultKillTimeout_def
      Second_def sample_defs)

subsection \<open>The claims\<close>

text \<open>
  C1, amended. \<^verbatim>\<open>Wait\<close> returns the error "process is not running", with a nil state and
  without calling \<^verbatim>\<open>cmd.Wait()\<close>, exactly when \<^verbatim>\<open>running\<close> is false at the call. When
  \<^verbatim>\<open>running\<close> is true it calls \<^verbatim>\<open>cmd.Wait()\<close> and returns the error of that call
  together with the state the command holds after it: the state the system reported to
  this wait, or the state an earlier wait recorded. That state is the exit status, not
  nil, whenever the wait gets one from the system; it is nil when waiting for the
  process fails and nothing is recorded.
\<close>

theorem Wait_result:
  "(\<not> running p \<longrightarrow>
      Wait env p = Inr ((None, Some (Errorf ''process is not running'')), p, []))
   \<and> (running p \<and> cmd p = Some c \<and> Process c \<noteq> None \<and> ProcessState c = None \<longrightarrow>
        Wait env p =
          Inr ((wait_state env, wait_err env),
               p\<lparr> cmd := Some (c\<lparr> ProcessState := wait_state env \<rparr>),
                  stdin := (case stdin p of None \<Rightarrow> None
                            | Some w \<Rightarrow> Some (w\<lparr> wcClosed := True \<rparr>)) \<rparr>,
               [EvWait]))
   \<and> (running p \<and> cmd p = Some c \<and> Process c \<noteq> None \<and> ProcessState c = Some st \<longrightarrow>
        Wait env p =
          Inr ((Some st, Some (Errorf ''exec: Wait was already called'')), p, [EvWait]))
   \<and> (running p \<and> bound p \<and> wait_state env \<noteq> None \<longrightarrow>
        (\<exists>st' err p' tr. Wait env p = Inr ((Some st', err), p', tr)))
   \<and> (wait_err env \<noteq> Some (Errorf ''process is not running'') \<and> (running p \<longrightarrow> cmd p \<noteq> None) \<longrightarrow>
        ((\<exists>st' p' tr. Wait env p =
             Inr ((st', Some (Errorf ''process is not running'')), p', tr)) \<longleftrightarrow> \<not> running p))"
proof -
  have 1: "\<not> running p \<longrightarrow>
      Wait env p = Inr ((None, Some (Errorf ''process is not running'')), p, [])"
    by (simp add: Wait_def)
  have 2: "running p \<and> cmd p = Some c \<and> Process c \<noteq> None \<and> ProcessState c = None \<longrightarrow>
        Wait env p =
          Inr ((wait_state env, wait_err env),
               p\<lparr> cmd := Some (c\<lparr> ProcessState := wait_state env \<rparr>),
                  stdin := (case stdin p of None \<Rightarrow> None
                            | Some w \<Rightarrow> Some (w\<lparr> wcClosed := True \<rparr>)) \<rparr>,
               [EvWait])"
    by (auto simp: Wait_def wait_defs)
  have 3: "running p \<and> cmd p = Some c \<and> Process c \<noteq> None \<and> ProcessState c = Some st \<longrightarrow>
        Wait env p =
          Inr ((Some st, Some (Errorf ''exec: Wait was already called'')), p, [EvWait])"
    by (auto simp: Wait_def wait_defs)
  have 4: "running p \<and> bound p \<and> wait_state env \<noteq> None \<longrightarrow>
        (\<exists>st' err p' tr. Wait env p = Inr ((Some st', err), p', tr))"
    by (auto simp: Wait_def wait_defs bound_def split: option.splits)
  have 5: "wait_err env \<noteq> Some (Errorf ''process is not running'') \<and> (running p \<longrightarrow> cmd p \<noteq> None) \<longrightarrow>
        ((\<exists>st' p' tr. Wait env p =
             Inr ((st', Some (Errorf ''process is not running'')), p', tr)) \<longleftrightarrow> \<not> running p)"
    by (auto simp: Wait_def wait_defs split: option.splits)
  from 1 2 3 4 5 show ?thesis by blast
qed

theorem Wait_result_witness:
  "\<not> running fresh
   \<and> Wait env_ok fresh = Inr ((None, Some (Errorf ''process is not running'')), fresh, [])
   \<and> running started \<and> bound started \<and> wait_state env_ok \<noteq> None
   \<and> Wait env_ok started = Inr ((Some \<lparr> exitCode = 0 \<rparr>, None), waited, [EvWait])
   \<and> running waited
   \<and> Wait env_ok waited =
       Inr ((Some \<lparr> exitCode = 0 \<rparr>, Some (Errorf ''exec: Wait was already called'')), waited,
            [EvWait])
   \<and> wait_err env_ok \<noteq> Some (Errorf ''process is not running'')
   \<and> (\<nexists>st p' tr. Wait env_ok started =
         Inr ((st, Some (Errorf ''process is not running'')), p', tr))"
proof -
  let ?c = "\<lparr> Path = ''/bin/echo'', Args = [''echo'', ''test''],
              Process = Some \<lparr> Pid = 4242 \<rparr>, ProcessState = None \<rparr>"
  let ?w = "\<lparr> Path = ''/bin/echo'', Args = [''echo'', ''test''],
              Process = Some \<lparr> Pid = 4242 \<rparr>, ProcessState = Some \<lparr> exitCode = 0 \<rparr> \<rparr>"
  have f: "\<not> running fresh" by (simp add: fresh_def)
  have s: "running started" "bound started" "running waited"
    by (simp_all add: sample_defs bound_def)
  have c: "cmd started = Some ?c" "Process ?c \<noteq> None" "ProcessState ?c = None"
    by (simp_all add: sample_defs)
  have w: "cmd waited = Some ?w" "Process ?w \<noteq> None" "ProcessState ?w = Some \<lparr> exitCode = 0 \<rparr>"
    by (simp_all add: sample_defs)
  have e: "wait_err env_ok \<noteq> Some (Errorf ''process is not running'')"
    "wait_state env_ok \<noteq> None"
    by (simp_all add: env_ok_def)
  from Wait_result [of fresh env_ok] f
  have 1: "Wait env_ok fresh =
             Inr ((None, Some (Errorf ''process is not running'')), fresh, [])"
    by blast
  from Wait_result [of started env_ok ?c] s(1) c
  have "Wait env_ok started =
          Inr ((wait_state env_ok, wait_err env_ok),
               started\<lparr> cmd := Some (?c\<lparr> ProcessState := wait_state env_ok \<rparr>),
                        stdin := (case stdin started of None \<Rightarrow> None
                                  | Some w \<Rightarrow> Some (w\<lparr> wcClosed := True \<rparr>)) \<rparr>,
               [EvWait])"
    by blast
  then have 2: "Wait env_ok started = Inr ((Some \<lparr> exitCode = 0 \<rparr>, None), waited, [EvWait])"
    by (simp add: sample_defs)
  from Wait_result [of waited env_ok ?w "\<lparr> exitCode = 0 \<rparr>"] s(3) w
  have 3: "Wait env_ok waited =
       Inr ((Some \<lparr> exitCode = 0 \<rparr>, Some (Errorf ''exec: Wait was already called'')), waited,
            [EvWait])"
    by blast
  from Wait_result [of started env_ok] s(1) c(1) e(1)
  have 4: "\<nexists>st p' tr. Wait env_ok started =
             Inr ((st, Some (Errorf ''process is not running'')), p', tr)"
    by simp
  from f s e 1 2 3 4 show ?thesis by blast
qed

text \<open>
  C1 as stated fails: the started handle is running and its process is bound, but
  waiting for the process fails (errno 10) and no state is recorded; \<^verbatim>\<open>Wait\<close> returns
  that error with a nil state.
\<close>

theorem Wait_null_state_counterexample:
  "running started \<and> bound started
   \<and> Wait env_wait_fails started =
       Inr ((None, Some (OSError 10)), started\<lparr> stdin := Some \<lparr> wcClosed = True \<rparr> \<rparr>, [EvWait])"
  by (simp add: Wait_started_fails started_flags)

text \<open>
  C2. \<^verbatim>\<open>PID\<close> on the handle of \<^verbatim>\<open>New("echo", "test")\<close>, never started: the claim and the
  comment of \<^verbatim>\<open>PID\<close> say -1; the code dereferences the nil \<^verbatim>\<open>p.cmd\<close>.
\<close>

theorem PID_fresh_panics:
  "New ''echo'' [''test''] = Inr fresh \<and> PID fresh = Inl NilDereference"
  by (simp add: New_def NewWithBuffer_def maxChanCap_def fresh_def PID_def)

lemma PID_after_start:
  "RunWithContext env p = Inr ((so, se, None), p', t) \<Longrightarrow> PID p' = Inr (new_pid env)"
  by (auto simp: RunWithContext_def PID_def Let_def split: if_splits option.splits)

lemma PID_after_failed_start:
  "\<not> running p \<Longrightarrow> RunWithContext env p = Inr ((so, se, Some e), p', t) \<Longrightarrow> PID p' = Inr (- 1)"
  by (auto simp: RunWithContext_def PID_def Let_def split: if_splits option.splits)

text \<open>
  C3. \<^verbatim>\<open>KillWithTimeout\<close> is \<^verbatim>\<open>killWithSignal\<close> with \<open>graceful = False\<close>, \<^verbatim>\<open>Kill\<close> and
  \<^verbatim>\<open>Terminate\<close> are \<^verbatim>\<open>killWithSignal\<close> with \<open>graceful = True\<close>; the only call
  \<^verbatim>\<open>KillWithTimeout\<close> ever makes to the outside is the kill, on either platform and for
  every timeout.
\<close>

theorem KillWithTimeout_never_graceful:
  "KillWithTimeout pf env t p = killWithSignal pf env t False p
   \<and> Kill pf env p = killWithSignal pf env defaultKillTimeout True p
   \<and> Terminate pf env p = killWithSignal pf env defaultKillTimeout True p
   \<and> trace_of (KillWithTimeout pf env t p) = (if running p \<and> bound p then [EvKill] else [])"
  by (cases pf)
     (auto simp: KillWithTimeout_def Kill_def Terminate_def kill_defs trace_of_def bound_def
        split: option.splits)

theorem KillWithTimeout_never_graceful_witness:
  "running started \<and> bound started
   \<and> trace_of (KillWithTimeout Unix env_ok 200000000 started) = [EvKill]
   \<and> trace_of (KillWithTimeout Windows env_ok 200000000 started) = [EvKill]
   \<and> trace_of (Kill Unix env_ok started) = [EvSignal SIGTERM, EvWait]"
proof -
  have h: "running started \<and> bound started" using started_flags by simp
  have k: "trace_of (Kill Unix env_ok started) = [EvSignal SIGTERM, EvWait]"
    by (simp add: Kill_def kill_defs done_first_def defaultKillTimeout_def Second_def
        exited_def wait_defs trace_of_def sample_defs)
  from KillWithTimeout_never_graceful [of Unix env_ok 200000000 started]
  have u: "trace_of (KillWithTimeout Unix env_ok 200000000 started) =
             (if running started \<and> bound started then [EvKill] else [])"
    by blast
  from KillWithTimeout_never_graceful [of Windows env_ok 200000000 started]
  have w: "trace_of (KillWithTimeout Windows env_ok 200000000 started) =
             (if running started \<and> bound started then [EvKill] else [])"
    by blast
  from h k u w show ?thesis by simp
qed

lemma RunWithContext_while_running:
  "running p \<Longrightarrow>
     RunWithContext env p = Inr ((None, None, Some (Errorf ''process already running'')), p, [])"
  by (simp add: RunWithContext_def)

lemma RunWithContext_not_running:
  assumes "\<not> running p" and "stdout_pipe_err env = None" and "stderr_pipe_err env = None"
    and "stdin_pipe_err env = None" and "start_err env = None"
  shows "\<exists>p'. RunWithContext env p =
                Inr ((Some (stdout p), Some (stderr p), None), p',
                     [EvStart, EvGo (GoStreamOutput Stdout), EvGo (GoStreamOutput Stderr),
                      EvGo GoWatcher])
              \<and> running p' \<and> stdout p' = stdout p \<and> stderr p' = stderr p"
  using assms by (simp add: RunWithContext_def Let_def)

text \<open>
  C4. A start while \<^verbatim>\<open>running\<close> is true is rejected with "process already running",
  starts nothing and leaves the struct as it is (lemma \<open>RunWithContext_while_running\<close>).
  A start after the process has terminated is not rejected. The handle of
  \<^verbatim>\<open>New("echo", "test")\<close> is started, streams its line, and is cleaned up by its watcher
  after the exit. A second \<^verbatim>\<open>RunWithContext\<close> on it returns no error, starts a second
  process, sets \<^verbatim>\<open>running\<close> and hands out the two channels the cleanup has closed; the
  first line the new process writes makes \<^verbatim>\<open>streamOutput\<close> send on a closed channel,
  and the program panics.
\<close>

theorem restart_after_exit_accepted:
  "New ''echo'' [''test''] = Inr fresh
   \<and> RunWithContext env_ok fresh =
       Inr ((Some (stdout fresh), Some (stderr fresh), None), started,
            [EvStart, EvGo (GoStreamOutput Stdout), EvGo (GoStreamOutput Stderr), EvGo GoWatcher])
   \<and> streamOutput (Stdout, [''test'']) (stdout started) = Inr [EvSend Stdout ''test'']
   \<and> completionWatcher False started =
       Inr ((), cleaned, [EvCloseStdin, EvCloseChan Stdout, EvCloseChan Stderr])
   \<and> \<not> running cleaned
   \<and> RunWithContext env_ok cleaned =
       Inr ((Some (stdout cleaned), Some (stderr cleaned), None), restarted,
            [EvStart, EvGo (GoStreamOutput Stdout), EvGo (GoStreamOutput Stderr), EvGo GoWatcher])
   \<and> running restarted \<and> closed (stdout restarted) \<and> closed (stderr restarted)
   \<and> streamOutput (Stdout, [''test'']) (stdout restarted) = Inl SendOnClosedChannel
   \<and> run_ops Unix [OpRun env_ok, OpStream Stdout [''test''], OpWatcher False,
                    OpRun env_ok, OpStream Stdout [''test'']] fresh
       = Inl SendOnClosedChannel"
proof -
  have a: "streamOutput (Stdout, [''test'']) (stdout started) = Inr [EvSend Stdout ''test'']"
    by (simp add: sample_defs)
  have b: "\<not> running cleaned" "running restarted" "closed (stdout restarted)"
    "closed (stderr restarted)"
    by (simp_all add: sample_defs)
  have c: "streamOutput (Stdout, [''test'']) (stdout restarted) = Inl SendOnClosedChannel"
    using b by simp
  have d: "run_ops Unix [OpRun env_ok, OpStream Stdout [''test''], OpWatcher False,
                         OpRun env_ok, OpStream Stdout [''test'']] fresh
             = Inl SendOnClosedChannel"
    using a c by (simp add: started_Run watcher_started Run_cleaned drop_value_def)
  from fresh_New started_Run watcher_started Run_cleaned a b c d show ?thesis
    by blast
qed

text \<open>
  C5. \<^verbatim>\<open>Kill\<close>, \<^verbatim>\<open>Terminate\<close> and \<^verbatim>\<open>KillWithTimeout\<close> are the one function
  \<^verbatim>\<open>killWithSignal\<close> of the platform; \<^verbatim>\<open>Kill\<close> and \<^verbatim>\<open>Terminate\<close> call it with five
  seconds (5000000000 ns) and \<open>graceful = True\<close>, so they are equal.
\<close>

theorem Kill_Terminate_shared:
  "Kill pf env p = killWithSignal pf env 5000000000 True p
   \<and> Terminate pf env p = killWithSignal pf env 5000000000 True p
   \<and> Kill pf env p = Terminate pf env p
   \<and> KillWithTimeout pf env t p = killWithSignal pf env t False p"
  by (simp add: Kill_def Terminate_def KillWithTimeout_def defaultKillTimeout_def Second_def)

theorem Kill_Terminate_shared_witness:
  "Kill Unix env_ok suspended = Inr (None, stopped, [EvSignal SIGTERM, EvWait])
   \<and> Terminate Unix env_ok suspended = Inr (None, stopped, [EvSignal SIGTERM, EvWait])
   \<and> killWithSignal Unix env_ok 5000000000 True suspended =
       Inr (None, stopped, [EvSignal SIGTERM, EvWait])"
proof -
  note k = Kill_Terminate_shared [of Unix env_ok suspended]
  from k have 1: "Terminate Unix env_ok suspended = Kill Unix env_ok suspended" by simp
  from k have 2: "killWithSignal Unix env_ok 5000000000 True suspended = Kill Unix env_ok suspended"
    by simp
  show ?thesis unfolding 1 2 by (simp add: Kill_suspended_unix)
qed

text \<open>
  C6, amended. Whenever \<^verbatim>\<open>killWithSignal\<close> returns an error the struct is unchanged, so
  \<^verbatim>\<open>running\<close> and \<^verbatim>\<open>paused\<close> keep their values. On POSIX a failed \<^verbatim>\<open>SIGTERM\<close> is
  returned, wrapped in "failed to send SIGTERM", before any wait or kill. On both
  platforms a failed kill is returned as it is. On Windows the results of the gentle
  terminate request (\<^verbatim>\<open>OpenProcess\<close>, \<^verbatim>\<open>TerminateProcess\<close>) are not looked at: whatever
  they are, the call returns the same value and leaves the same struct.
\<close>

theorem killWithSignal_failure_keeps_state:
  "(\<forall>e p' tr. killWithSignal pf env t g p = Inr (Some e, p', tr) \<longrightarrow> p' = p)
   \<and> (running p \<and> bound p \<and> signal_err env = Some e0 \<longrightarrow>
        killWithSignal Unix env t True p =
          Inr (Some (Wrapf ''failed to send SIGTERM'' e0), p, [EvSignal SIGTERM]))
   \<and> (kill_err env = Some e1 \<and> EvKill \<in> set (trace_of (killWithSignal pf env t g p)) \<longrightarrow>
        (\<exists>tr. killWithSignal pf env t g p = Inr (Some e1, p, tr)))
   \<and> outcome_of (killWithSignal Windows (env\<lparr> open_err := oe, terminate_err := te \<rparr>) t g p)
       = outcome_of (killWithSignal Windows env t g p)"
proof (intro conjI allI impI)
  fix e p' tr
  assume "killWithSignal pf env t g p = Inr (Some e, p', tr)"
  from killWithSignal_cases [OF this] show "p' = p" by auto
next
  assume "running p \<and> bound p \<and> signal_err env = Some e0"
  then show "killWithSignal Unix env t True p =
               Inr (Some (Wrapf ''failed to send SIGTERM'' e0), p, [EvSignal SIGTERM])"
    by (auto simp: kill_defs bound_def split: option.splits)
next
  assume "kill_err env = Some e1 \<and> EvKill \<in> set (trace_of (killWithSignal pf env t g p))"
  then show "\<exists>tr. killWithSignal pf env t g p = Inr (Some e1, p, tr)"
    by (cases pf)
       (auto simp: kill_defs trace_of_def Let_def split: if_splits option.splits)
next
  show "outcome_of (killWithSignal Windows (env\<lparr> open_err := oe, terminate_err := te \<rparr>) t g p)
          = outcome_of (killWithSignal Windows env t g p)"
  proof -
    let ?env = "env\<lparr> open_err := oe, terminate_err := te \<rparr>"
    have d: "done_first ?env t = done_first env t"
      by (simp add: done_first_def split: option.splits)
    have x: "exited ?env c q = exited env c q" for c q
      by (simp add: exited_def cmd_Wait_def)
    have k: "outcome_of (forceKill (env\<lparr> open_err := a, terminate_err := b \<rparr>) q tr) =
               (case kill_err env of
                  None \<Rightarrow> Inr (None, q\<lparr> running := False, paused := False \<rparr>)
                | Some e \<Rightarrow> Inr (Some e, q))" for q tr a b
      by (simp add: forceKill_def outcome_of_def split: option.splits)
    have k': "outcome_of (forceKill env q tr) =
               (case kill_err env of
                  None \<Rightarrow> Inr (None, q\<lparr> running := False, paused := False \<rparr>)
                | Some e \<Rightarrow> Inr (Some e, q))" for q tr
      by (simp add: forceKill_def outcome_of_def split: option.splits)
    have o: "outcome_of (Inr (v, q, tr)) = Inr (v, q)"
      for v :: "error option" and q tr
      by (simp add: outcome_of_def)
    have i: "outcome_of (Inl e :: (error option) result) = Inl e" for e
      by (simp add: outcome_of_def)
    show ?thesis
      unfolding killWithSignal_def killWithSignal_windows_def platform.case d x Let_def
      by (simp add: k k' o i split: option.splits)
  qed
qed

theorem killWithSignal_failure_keeps_state_witness:
  "running started \<and> bound started
   \<and> signal_err env_signal_fails = Some (OSError 3)
   \<and> killWithSignal Unix env_signal_fails 5000000000 True started =
       Inr (Some (Wrapf ''failed to send SIGTERM'' (OSError 3)), started, [EvSignal SIGTERM])
   \<and> kill_err env_kill_fails = Some (OSError 1)
   \<and> EvKill \<in> set (trace_of (killWithSignal Windows env_kill_fails 5000000000 True started))
   \<and> killWithSignal Windows env_kill_fails 5000000000 True started =
       Inr (Some (OSError 1), started,
            [EvWait, EvOpenProcess PROCESS_TERMINATE, EvTerminateProcess 1, EvCloseHandle, EvKill])"
proof -
  have h: "running started \<and> bound started" using started_flags by simp
  have s: "signal_err env_signal_fails = Some (OSError 3)"
    and k: "kill_err env_kill_fails = Some (OSError 1)"
    by (simp_all add: sample_defs)
  from killWithSignal_failure_keeps_state [of Unix env_signal_fails 5000000000 True started "OSError 3"] h s
  have 1: "killWithSignal Unix env_signal_fails 5000000000 True started =
             Inr (Some (Wrapf ''failed to send SIGTERM'' (OSError 3)), started, [EvSignal SIGTERM])"
    by blast
  have r: "killWithSignal Windows env_kill_fails 5000000000 True started =
             Inr (Some (OSError 1), started,
                  [EvWait, EvOpenProcess PROCESS_TERMINATE, EvTerminateProcess 1, EvCloseHandle,
                   EvKill])"
    by (simp add: kill_defs done_first_def sample_defs)
  then have m: "EvKill \<in> set (trace_of (killWithSignal Windows env_kill_fails 5000000000 True started))"
    by (simp add: trace_of_def)
  from h s k 1 r m show ?thesis by blast
qed

text \<open>
  C6 as stated fails on Windows: \<^verbatim>\<open>TerminateProcess\<close> fails, the error is dropped, the
  process exits within the five seconds, and \<^verbatim>\<open>Kill\<close> returns nil with \<^verbatim>\<open>running\<close>
  cleared.
\<close>

theorem gentle_failure_discarded_counterexample:
  "running started
   \<and> open_err env_term_fails = None
   \<and> terminate_err env_term_fails = Some (OSError 5)
   \<and> Kill Windows env_term_fails started =
       Inr (None, stopped,
            [EvWait, EvOpenProcess PROCESS_TERMINATE, EvTerminateProcess 1, EvCloseHandle])
   \<and> \<not> running stopped"
  by (simp add: Kill_started_windows_term_fails) (simp add: sample_defs)

text \<open>
  C7. \<^verbatim>\<open>killWithSignal\<close> with \<open>graceful = True\<close> on a running handle whose process exits
  before the timeout: the gentle stop comes first (\<^verbatim>\<open>SIGTERM\<close> on POSIX, accepted by the
  system; \<^verbatim>\<open>OpenProcess\<close> and, when that succeeds, \<^verbatim>\<open>TerminateProcess(h, 1)\<close> on
  Windows), the call returns nil, the kill is never issued, and both flags are false
  afterwards.
\<close>

theorem graceful_exit_no_escalation:
  assumes "running p" and "bound p" and "exit_after env = Some d" and "int d < t"
  shows "(signal_err env = None \<longrightarrow>
            (\<exists>p'. killWithSignal Unix env t True p = Inr (None, p', [EvSignal SIGTERM, EvWait])
                 \<and> \<not> running p' \<and> \<not> paused p'))
         \<and> (\<exists>p' tr. killWithSignal Windows env t True p =
                       Inr (None, p', [EvWait, EvOpenProcess PROCESS_TERMINATE] @ tr)
                 \<and> EvKill \<notin> set tr
                 \<and> (open_err env = None \<longrightarrow> tr = [EvTerminateProcess 1, EvCloseHandle])
                 \<and> \<not> running p' \<and> \<not> paused p')"
proof -
  from assms(3,4) have d: "done_first env t"
    by (simp add: done_first_def)
  from assms(2) obtain c pr where c: "cmd p = Some c" "Process c = Some pr"
    by (auto simp: bound_def split: option.splits)
  have u: "signal_err env = None \<longrightarrow>
             (\<exists>p'. killWithSignal Unix env t True p = Inr (None, p', [EvSignal SIGTERM, EvWait])
                  \<and> \<not> running p' \<and> \<not> paused p')"
    using assms(1) c d by (simp add: kill_defs exited_fields)
  have w: "\<exists>p' tr. killWithSignal Windows env t True p =
                      Inr (None, p', [EvWait, EvOpenProcess PROCESS_TERMINATE] @ tr)
                 \<and> EvKill \<notin> set tr
                 \<and> (open_err env = None \<longrightarrow> tr = [EvTerminateProcess 1, EvCloseHandle])
                 \<and> \<not> running p' \<and> \<not> paused p'"
    using assms(1) c d by (simp add: kill_defs exited_fields)
  from u w show ?thesis by blast
qed

theorem graceful_exit_no_escalation_witness:
  "running suspended \<and> bound suspended \<and> exit_after env_ok = Some 1000000
   \<and> int 1000000 < 5000000000 \<and> signal_err env_ok = None \<and> open_err env_ok = None
   \<and> killWithSignal Unix env_ok 5000000000 True suspended =
       Inr (None, stopped, [EvSignal SIGTERM, EvWait])
   \<and> killWithSignal Windows env_ok 5000000000 True suspended =
       Inr (None, stopped,
            [EvWait, EvOpenProcess PROCESS_TERMINATE, EvTerminateProcess 1, EvCloseHandle])
   \<and> \<not> running stopped \<and> \<not> paused stopped"
proof -
  have r: "running suspended" and b: "bound suspended"
    and x: "exit_after env_ok = Some 1000000" and l: "int 1000000 < 5000000000"
    and s: "signal_err env_ok = None" and ope: "open_err env_ok = None"
    by (simp_all add: sample_defs bound_def)
  note g = graceful_exit_no_escalation [OF r b x l]
  from g s obtain p1 where
    1: "killWithSignal Unix env_ok 5000000000 True suspended =
          Inr (None, p1, [EvSignal SIGTERM, EvWait])" and f1: "\<not> running p1 \<and> \<not> paused p1"
    by blast
  from g ope obtain p2 where
    2: "killWithSignal Windows env_ok 5000000000 True suspended =
          Inr (None, p2, [EvWait, EvOpenProcess PROCESS_TERMINATE]
                         @ [EvTerminateProcess 1, EvCloseHandle])"
    by blast
  have e1: "killWithSignal Unix env_ok 5000000000 True suspended =
              Inr (None, stopped, [EvSignal SIGTERM, EvWait])"
    by (simp add: kill_defs exited_def wait_defs done_first_def sample_defs)
  have e2: "killWithSignal Windows env_ok 5000000000 True suspended =
              Inr (None, stopped,
                   [EvWait, EvOpenProcess PROCESS_TERMINATE, EvTerminateProcess 1, EvCloseHandle])"
    by (simp add: kill_defs exited_def wait_defs done_first_def sample_defs)
  from 1 e1 have "p1 = stopped" by simp
  with f1 have "\<not> running stopped \<and> \<not> paused stopped" by simp
  with r b x l s ope e1 e2 show ?thesis by blast
qed

text \<open>A step that is not a \<^verbatim>\<open>Pause\<close> returning nil never sets \<^verbatim>\<open>paused\<close>.\<close>

lemma exec_op_not_paused:
  assumes "exec_op pf x p = Inr (p', tr)" and "\<not> paused p" and "\<not> Pause_succeeds pf x p"
  shows "\<not> paused p'"
proof (cases x)
  case (OpRun env)
  with assms obtain v where "RunWithContext env p = Inr (v, p', tr)"
    by (auto dest: drop_value_Inr)
  from RunWithContext_cases [OF this] assms(2) show ?thesis by auto
next
  case (OpPause env)
  with assms(1) obtain v where r: "Pause pf env p = Inr (v, p', tr)"
    by (auto dest: drop_value_Inr)
  with assms(3) OpPause have "v \<noteq> None"
    by (cases v) (auto simp: Pause_succeeds_def)
  with Pause_cases [OF r] assms(2) show ?thesis by auto
next
  case (OpResume env)
  with assms obtain v where "Resume pf env p = Inr (v, p', tr)"
    by (auto dest: drop_value_Inr)
  from Resume_cases [OF this] assms(2) show ?thesis by auto
next
  case (OpKill env)
  with assms obtain v where "killWithSignal pf env defaultKillTimeout True p = Inr (v, p', tr)"
    by (auto simp: Kill_def dest: drop_value_Inr)
  from killWithSignal_cases [OF this] assms(2) show ?thesis by auto
next
  case (OpKillWithTimeout env t)
  with assms obtain v where "killWithSignal pf env t False p = Inr (v, p', tr)"
    by (auto simp: KillWithTimeout_def dest: drop_value_Inr)
  from killWithSignal_cases [OF this] assms(2) show ?thesis by auto
next
  case (OpTerminate env)
  with assms obtain v where "killWithSignal pf env defaultKillTimeout True p = Inr (v, p', tr)"
    by (auto simp: Terminate_def dest: drop_value_Inr)
  from killWithSignal_cases [OF this] assms(2) show ?thesis by auto
next
  case (OpWait env)
  with assms obtain v where "Wait env p = Inr (v, p', tr)"
    by (auto dest: drop_value_Inr)
  from Wait_cases [OF this] assms(2) show ?thesis by auto
next
  case (OpWrite env s)
  with assms obtain v where "Write env s p = Inr (v, p', tr)"
    by (auto simp: WriteString_def dest: drop_value_Inr)
  from Write_cases [OF this] assms(2) show ?thesis by auto
next
  case OpIsRunning
  with assms show ?thesis by auto
next
  case OpIsPaused
  with assms show ?thesis by auto
next
  case OpPID
  with assms show ?thesis by (auto split: sum.splits)
next
  case (OpStream s ls)
  with assms show ?thesis by (auto split: sum.splits)
next
  case (OpWatcher b)
  with assms obtain v where "completionWatcher b p = Inr (v, p', tr)"
    by (auto dest: drop_value_Inr)
  from completionWatcher_flags [OF this] show ?thesis by simp
qed

lemma run_ops_not_paused:
  "run_ops pf ops p = Inr (p', tr) \<Longrightarrow> \<not> paused p \<Longrightarrow> no_Pause_succeeded pf ops p \<Longrightarrow>
     \<not> paused p'"
proof (induction ops arbitrary: p tr)
  case Nil
  then show ?case by simp
next
  case (Cons x xs)
  from Cons.prems(1) obtain p1 t1 t2 where
    s1: "exec_op pf x p = Inr (p1, t1)" and s2: "run_ops pf xs p1 = Inr (p', t2)"
    by (auto split: sum.splits)
  from Cons.prems(3) s1 have nx: "\<not> Pause_succeeds pf x p" and nxs: "no_Pause_succeeded pf xs p1"
    by auto
  from exec_op_not_paused [OF s1 Cons.prems(2) nx] have "\<not> paused p1" .
  from Cons.IH [OF s2 this nxs] show ?case .
qed

lemma Pause_accepted:
  assumes "running p" and "\<not> paused p" and "bound p" and "backend_ok pf env"
  shows "\<exists>tr. Pause pf env p = Inr (None, p\<lparr> paused := True \<rparr>, tr)"
  using assms by (cases pf) (auto simp: pause_defs backend_ok_def)

lemma Resume_accepted:
  assumes "running p" and "paused p" and "bound p" and "backend_ok pf env"
  shows "\<exists>tr. Resume pf env p = Inr (None, p\<lparr> paused := False \<rparr>, tr)"
  using assms by (cases pf) (auto simp: pause_defs backend_ok_def)

lemma Pause_nil_iff:
  assumes "Pause pf env p = Inr (r, p', tr)"
  shows "r = None \<longleftrightarrow> running p \<and> \<not> paused p \<and> backend_ok pf env"
  using assms
  by (cases pf) (auto simp: pause_defs backend_ok_def split: if_splits option.splits)

lemma Resume_nil_iff:
  assumes "Resume pf env p = Inr (r, p', tr)"
  shows "r = None \<longleftrightarrow> running p \<and> paused p \<and> backend_ok pf env"
  using assms
  by (cases pf) (auto simp: pause_defs backend_ok_def split: if_splits option.splits)

text \<open>
  C8. On a handle that is running, not paused and bound, \<^verbatim>\<open>Pause\<close> returns nil when the
  system accepts the suspend request, and the handle afterwards is the old one with
  \<^verbatim>\<open>paused\<close> set, so \<^verbatim>\<open>IsPaused\<close> is true; on a handle that is running, paused and
  bound, \<^verbatim>\<open>Resume\<close> returns nil when the system accepts the resume request, and
  \<^verbatim>\<open>paused\<close> is cleared. \<^verbatim>\<open>Pause\<close> returns nil only on a handle that is running and not
  paused, \<^verbatim>\<open>Resume\<close> only on one that is running and paused, and only when the system
  accepts the request; a call that returns an error leaves the struct as it is. On a
  handle that is not paused, and so on every handle in whose history from
  \<^verbatim>\<open>NewWithBuffer\<close> no call of \<^verbatim>\<open>Pause\<close> has returned nil, \<^verbatim>\<open>Resume\<close> returns "process
  not running or not paused", changes nothing and calls nothing. Both platforms.
\<close>

theorem Pause_Resume_flags:
  "(\<forall>p' tr. Pause pf env p = Inr (None, p', tr) \<longrightarrow>
       running p \<and> \<not> paused p \<and> p' = p\<lparr> paused := True \<rparr> \<and> IsPaused p')
   \<and> (\<forall>p' tr. Resume pf env p = Inr (None, p', tr) \<longrightarrow>
         running p \<and> paused p \<and> p' = p\<lparr> paused := False \<rparr> \<and> \<not> IsPaused p')
   \<and> (\<not> paused p \<longrightarrow>
         Resume pf env p = Inr (Some (Errorf ''process not running or not paused''), p, []))
   \<and> (NewWithBuffer n prog as = Inr p0 \<and> run_ops pf ops p0 = Inr (p, t)
        \<and> no_Pause_succeeded pf ops p0 \<longrightarrow>
         Resume pf env p = Inr (Some (Errorf ''process not running or not paused''), p, []))
   \<and> (running p \<and> \<not> paused p \<and> bound p \<and> backend_ok pf env \<longrightarrow>
         (\<exists>tr. Pause pf env p = Inr (None, p\<lparr> paused := True \<rparr>, tr))
         \<and> IsPaused (p\<lparr> paused := True \<rparr>))
   \<and> (running p \<and> paused p \<and> bound p \<and> backend_ok pf env \<longrightarrow>
         (\<exists>tr. Resume pf env p = Inr (None, p\<lparr> paused := False \<rparr>, tr))
         \<and> \<not> IsPaused (p\<lparr> paused := False \<rparr>))
   \<and> (\<forall>r p' tr. Pause pf env p = Inr (r, p', tr) \<longrightarrow>
         (r = None \<longleftrightarrow> running p \<and> \<not> paused p \<and> backend_ok pf env)
         \<and> (r \<noteq> None \<longrightarrow> p' = p))
   \<and> (\<forall>r p' tr. Resume pf env p = Inr (r, p', tr) \<longrightarrow>
         (r = None \<longleftrightarrow> running p \<and> paused p \<and> backend_ok pf env)
         \<and> (r \<noteq> None \<longrightarrow> p' = p))
   \<and> (\<not> running p \<or> paused p \<longrightarrow>
         Pause pf env p = Inr (Some (Errorf ''process not running or already paused''), p, []))
   \<and> (\<not> running p \<longrightarrow>
         Resume pf env p = Inr (Some (Errorf ''process not running or not paused''), p, []))"
proof -
  have 1: "\<forall>p' tr. Pause pf env p = Inr (None, p', tr) \<longrightarrow>
             running p \<and> \<not> paused p \<and> p' = p\<lparr> paused := True \<rparr> \<and> IsPaused p'"
  proof (intro allI impI)
    fix p' tr
    assume "Pause pf env p = Inr (None, p', tr)"
    from Pause_cases [OF this]
    show "running p \<and> \<not> paused p \<and> p' = p\<lparr> paused := True \<rparr> \<and> IsPaused p'"
      by (auto simp: IsPaused_def)
  qed
  have 2: "\<forall>p' tr. Resume pf env p = Inr (None, p', tr) \<longrightarrow>
             running p \<and> paused p \<and> p' = p\<lparr> paused := False \<rparr> \<and> \<not> IsPaused p'"
  proof (intro allI impI)
    fix p' tr
    assume "Resume pf env p = Inr (None, p', tr)"
    from Resume_cases [OF this]
    show "running p \<and> paused p \<and> p' = p\<lparr> paused := False \<rparr> \<and> \<not> IsPaused p'"
      by (auto simp: IsPaused_def)
  qed
  have 3: "\<not> (running q \<and> paused q) \<longrightarrow>
             Resume pf env q = Inr (Some (Errorf ''process not running or not paused''), q, [])"
    for q
    by (cases pf) (auto simp: pause_defs)
  have 4: "NewWithBuffer n prog as = Inr p0 \<and> run_ops pf ops p0 = Inr (p, t)
             \<and> no_Pause_succeeded pf ops p0 \<longrightarrow>
           Resume pf env p = Inr (Some (Errorf ''process not running or not paused''), p, [])"
  proof
    assume a: "NewWithBuffer n prog as = Inr p0 \<and> run_ops pf ops p0 = Inr (p, t)
               \<and> no_Pause_succeeded pf ops p0"
    then have "\<not> paused p0" using NewWithBuffer_init by blast
    with a run_ops_not_paused have "\<not> paused p" by blast
    with 3 show "Resume pf env p = Inr (Some (Errorf ''process not running or not paused''), p, [])"
      by blast
  qed
  have 5: "running p \<and> \<not> paused p \<and> bound p \<and> backend_ok pf env \<longrightarrow>
         (\<exists>tr. Pause pf env p = Inr (None, p\<lparr> paused := True \<rparr>, tr))
         \<and> IsPaused (p\<lparr> paused := True \<rparr>)"
    using Pause_accepted [of p pf env] by (simp add: IsPaused_def)
  have 6: "running p \<and> paused p \<and> bound p \<and> backend_ok pf env \<longrightarrow>
         (\<exists>tr. Resume pf env p = Inr (None, p\<lparr> paused := False \<rparr>, tr))
         \<and> \<not> IsPaused (p\<lparr> paused := False \<rparr>)"
    using Resume_accepted [of p pf env] by (simp add: IsPaused_def)
  have 7: "\<forall>r p' tr. Pause pf env p = Inr (r, p', tr) \<longrightarrow>
         (r = None \<longleftrightarrow> running p \<and> \<not> paused p \<and> backend_ok pf env)
         \<and> (r \<noteq> None \<longrightarrow> p' = p)"
  proof (intro allI impI)
    fix r p' tr
    assume a: "Pause pf env p = Inr (r, p', tr)"
    from Pause_nil_iff [OF a] Pause_cases [OF a]
    show "(r = None \<longleftrightarrow> running p \<and> \<not> paused p \<and> backend_ok pf env) \<and> (r \<noteq> None \<longrightarrow> p' = p)"
      by blast
  qed
  have 8: "\<forall>r p' tr. Resume pf env p = Inr (r, p', tr) \<longrightarrow>
         (r = None \<longleftrightarrow> running p \<and> paused p \<and> backend_ok pf env)
         \<and> (r \<noteq> None \<longrightarrow> p' = p)"
  proof (intro allI impI)
    fix r p' tr
    assume a: "Resume pf env p = Inr (r, p', tr)"
    from Resume_nil_iff [OF a] Resume_cases [OF a]
    show "(r = None \<longleftrightarrow> running p \<and> paused p \<and> backend_ok pf env) \<and> (r \<noteq> None \<longrightarrow> p' = p)"
      by blast
  qed
  have 9: "\<not> running p \<or> paused p \<longrightarrow>
         Pause pf env p = Inr (Some (Errorf ''process not running or already paused''), p, [])"
    by (cases pf) (auto simp: pause_defs)
  from 1 2 3 [of p] 4 5 6 7 8 9 show ?thesis by blast
qed

theorem Pause_Resume_flags_witness:
  "running started \<and> \<not> paused started \<and> bound started
   \<and> backend_ok Unix env_ok \<and> backend_ok Windows env_ok
   \<and> Pause Unix env_ok started = Inr (None, suspended, [EvSignal SIGSTOP])
   \<and> Pause Windows env_ok started =
       Inr (None, suspended,
            [EvOpenProcess PROCESS_SUSPEND_RESUME, EvNtSuspendProcess, EvCloseHandle])
   \<and> IsPaused suspended \<and> running suspended \<and> paused suspended \<and> bound suspended
   \<and> Resume Unix env_ok suspended = Inr (None, started, [EvSignal SIGCONT])
   \<and> Resume Windows env_ok suspended =
       Inr (None, started,
            [EvOpenProcess PROCESS_SUSPEND_RESUME, EvNtResumeProcess, EvCloseHandle])
   \<and> \<not> IsPaused started
   \<and> Pause Unix env_signal_fails started =
       Inr (Some (Wrapf ''failed to pause process'' (OSError 3)), started, [EvSignal SIGSTOP])
   \<and> NewWithBuffer 0 ''echo'' [''test''] = Inr fresh
   \<and> \<not> running fresh
   \<and> Pause Unix env_ok fresh =
       Inr (Some (Errorf ''process not running or already paused''), fresh, [])
   \<and> run_ops Unix [OpPause env_ok, OpRun env_ok] fresh =
       Inr (started,
            [EvStart, EvGo (GoStreamOutput Stdout), EvGo (GoStreamOutput Stderr), EvGo GoWatcher])
   \<and> no_Pause_succeeded Unix [OpPause env_ok, OpRun env_ok] fresh
   \<and> Resume Unix env_ok started =
       Inr (Some (Errorf ''process not running or not paused''), started, [])
   \<and> Resume Windows env_ok fresh =
       Inr (Some (Errorf ''process not running or not paused''), fresh, [])"
proof -
  have s: "running started" "\<not> paused started" "bound started"
    using started_flags by simp_all
  have u: "running suspended" "paused suspended" "bound suspended"
    by (simp_all add: sample_defs bound_def)
  have b: "backend_ok Unix env_ok" "backend_ok Windows env_ok"
    by (simp_all add: backend_ok_def env_ok_def)
  have f: "\<not> running fresh" by (simp add: fresh_def)
  have su: "suspended = started\<lparr> paused := True \<rparr>"
    by (simp add: suspended_def)
  have st: "started = suspended\<lparr> paused := False \<rparr>"
    by (simp add: sample_defs)
  note pu = Pause_Resume_flags [of Unix env_ok started]
  note pw = Pause_Resume_flags [of Windows env_ok started]
  note ru = Pause_Resume_flags [of Unix env_ok suspended]
  note rw = Pause_Resume_flags [of Windows env_ok suspended]
  from pu s b(1) obtain t1 where 1: "Pause Unix env_ok started = Inr (None, suspended, t1)"
    unfolding su by blast
  from pw s b(2) obtain t2 where 2: "Pause Windows env_ok started = Inr (None, suspended, t2)"
    unfolding su by blast
  from pu 1 have 3: "IsPaused suspended" by blast
  from ru u b(1) obtain t3 where 4: "Resume Unix env_ok suspended = Inr (None, started, t3)"
    using st by metis
  from rw u b(2) obtain t4 where 5: "Resume Windows env_ok suspended = Inr (None, started, t4)"
    using st by metis
  from ru 4 have 6: "\<not> IsPaused started" by blast
  have e1: "Pause Unix env_ok started = Inr (None, suspended, [EvSignal SIGSTOP])"
    using Pause_started [of Unix] by simp
  have e2: "Pause Windows env_ok started =
       Inr (None, suspended,
            [EvOpenProcess PROCESS_SUSPEND_RESUME, EvNtSuspendProcess, EvCloseHandle])"
    using Pause_started [of Windows] by simp
  have e4: "Resume Unix env_ok suspended = Inr (None, started, [EvSignal SIGCONT])"
    using Resume_suspended [of Unix] by simp
  have e5: "Resume Windows env_ok suspended =
       Inr (None, started,
            [EvOpenProcess PROCESS_SUSPEND_RESUME, EvNtResumeProcess, EvCloseHandle])"
    using Resume_suspended [of Windows] by simp
  have pf: "Pause Unix env_signal_fails started =
       Inr (Some (Wrapf ''failed to pause process'' (OSError 3)), started, [EvSignal SIGSTOP])"
    by (simp add: pause_defs bound_def sample_defs)
  have n: "NewWithBuffer 0 ''echo'' [''test''] = Inr fresh"
    using fresh_New by (simp add: New_def)
  from Pause_Resume_flags [of Unix env_ok fresh] f
  have p0: "Pause Unix env_ok fresh =
       Inr (Some (Errorf ''process not running or already paused''), fresh, [])"
    by blast
  have h: "run_ops Unix [OpPause env_ok, OpRun env_ok] fresh =
       Inr (started,
            [EvStart, EvGo (GoStreamOutput Stdout), EvGo (GoStreamOutput Stderr), EvGo GoWatcher])"
    using p0 by (simp add: Pause_def started_Run drop_value_def)
  have np: "no_Pause_succeeded Unix [OpPause env_ok, OpRun env_ok] fresh"
    using p0 by (simp add: Pause_succeeds_def Pause_def started_Run drop_value_def)
  from Pause_Resume_flags [of Unix env_ok started 0 "''echo''" "[''test'']" fresh
      "[OpPause env_ok, OpRun env_ok]"] n h np
  have r1: "Resume Unix env_ok started =
       Inr (Some (Errorf ''process not running or not paused''), started, [])"
    by blast
  from Pause_Resume_flags [of Windows env_ok fresh] f
  have r2: "Resume Windows env_ok fresh =
       Inr (Some (Errorf ''process not running or not paused''), fresh, [])"
    by blast
  from s u b f 3 6 e1 e2 e4 e5 pf n p0 h np r1 r2 show ?thesis by blast
qed

text \<open>
  C9. In every state reached from a handle made by \<^verbatim>\<open>NewWithBuffer\<close> (so also by
  \<^verbatim>\<open>New\<close>) through any sequence of public methods and watcher cleanups, on either
  platform and whatever the system answers, \<^verbatim>\<open>paused\<close> implies \<^verbatim>\<open>running\<close>. A step that
  takes \<^verbatim>\<open>running\<close> from true to false leaves \<^verbatim>\<open>paused\<close> false, and a step that takes
  \<^verbatim>\<open>paused\<close> from false to true starts and ends with \<^verbatim>\<open>running\<close> true.
\<close>

theorem paused_implies_running:
  "(NewWithBuffer n prog as = Inr p0 \<and> run_ops pf ops p0 = Inr (p, tr) \<longrightarrow>
      (paused p \<longrightarrow> running p))
   \<and> (exec_op pf x q = Inr (q', t) \<and> running q \<and> \<not> running q' \<longrightarrow> \<not> paused q')
   \<and> (exec_op pf x q = Inr (q', t) \<and> \<not> paused q \<and> paused q' \<longrightarrow> running q \<and> running q')"
proof -
  have 1: "NewWithBuffer n prog as = Inr p0 \<and> run_ops pf ops p0 = Inr (p, tr) \<longrightarrow>
             (paused p \<longrightarrow> running p)"
  proof
    assume a: "NewWithBuffer n prog as = Inr p0 \<and> run_ops pf ops p0 = Inr (p, tr)"
    with NewWithBuffer_init have "flags_ok p0" by blast
    with a run_ops_flags have "flags_ok p" by blast
    then show "paused p \<longrightarrow> running p" by (simp add: flags_ok_def)
  qed
  have 2: "exec_op pf x q = Inr (q', t) \<and> running q \<and> \<not> running q' \<longrightarrow> \<not> paused q'"
    using exec_op_flags [of pf x q q' t] by blast
  have 3: "exec_op pf x q = Inr (q', t) \<and> \<not> paused q \<and> paused q' \<longrightarrow> running q \<and> running q'"
    using exec_op_flags [of pf x q q' t] by blast
  from 1 2 3 show ?thesis by blast
qed

theorem paused_implies_running_witness:
  "NewWithBuffer 0 ''echo'' [''test''] = Inr fresh
   \<and> run_ops Unix [OpRun env_ok, OpPause env_ok] fresh = Inr (suspended, [EvStart, EvGo (GoStreamOutput Stdout), EvGo (GoStreamOutput Stderr),
        EvGo GoWatcher, EvSignal SIGSTOP])
   \<and> paused suspended \<and> running suspended
   \<and> exec_op Unix (OpKill env_ok) suspended = Inr (stopped, [EvSignal SIGTERM, EvWait])
   \<and> \<not> running stopped \<and> \<not> paused stopped
   \<and> exec_op Unix (OpPause env_ok) started = Inr (suspended, [EvSignal SIGSTOP])
   \<and> \<not> paused started \<and> running started"
proof -
  have n: "NewWithBuffer 0 ''echo'' [''test''] = Inr fresh"
    using fresh_New by (simp add: New_def)
  have p: "exec_op Unix (OpPause env_ok) started = Inr (suspended, [EvSignal SIGSTOP])"
    using Pause_started [of Unix] by (simp add: drop_value_def)
  have h: "run_ops Unix [OpRun env_ok, OpPause env_ok] fresh =
             Inr (suspended, [EvStart, EvGo (GoStreamOutput Stdout), EvGo (GoStreamOutput Stderr),
        EvGo GoWatcher, EvSignal SIGSTOP])"
    using p by (simp add: started_Run drop_value_def)
  have k: "exec_op Unix (OpKill env_ok) suspended = Inr (stopped, [EvSignal SIGTERM, EvWait])"
    by (simp add: Kill_suspended_unix drop_value_def)
  have f: "paused suspended" "\<not> running stopped" "\<not> paused started"
    by (simp_all add: sample_defs)
  from paused_implies_running [of 0 "''echo''" "[''test'']" fresh Unix
      "[OpRun env_ok, OpPause env_ok]" suspended "[EvStart, EvGo (GoStreamOutput Stdout), EvGo (GoStreamOutput Stderr),
        EvGo GoWatcher, EvSignal SIGSTOP]"] n h f(1)
  have 1: "running suspended" by blast
  from paused_implies_running [of _ _ _ _ Unix _ _ _ "OpKill env_ok" suspended stopped
      "[EvSignal SIGTERM, EvWait]"] k 1 f(2)
  have 2: "\<not> paused stopped" by blast
  from paused_implies_running [of _ _ _ _ Unix _ _ _ "OpPause env_ok" started suspended
      "[EvSignal SIGSTOP]"] p f(3) f(1)
  have 3: "running started" by blast
  from n h k p f 1 2 3 show ?thesis by blast
qed

text \<open>
  C10. On a handle whose flag \<^verbatim>\<open>channelsClosed\<close> agrees with its two channels,
  \<^verbatim>\<open>closeChannels\<close> never panics: when the flag is false it closes both channels and sets
  the flag, when the flag is true it does nothing; a second call right after always does
  nothing. Over a whole history from \<^verbatim>\<open>NewWithBuffer\<close>, with any number of watcher
  cleanups among the public calls, no close of a closed channel happens, each channel is
  closed at most once, and the flag keeps agreeing with the channels.
\<close>

theorem channels_closed_at_most_once:
  "(chans_consistent p \<longrightarrow>
      (\<exists>p'. closeChannels p =
               Inr ((), p', if channelsClosed p then [] else [EvCloseChan Stdout, EvCloseChan Stderr])
           \<and> channelsClosed p' \<and> closed (stdout p') \<and> closed (stderr p')
           \<and> (channelsClosed p \<longrightarrow> p' = p)
           \<and> closeChannels p' = Inr ((), p', [])))
   \<and> (NewWithBuffer n prog as = Inr p0 \<longrightarrow>
        run_ops pf ops p0 \<noteq> Inl CloseOfClosedChannel
        \<and> (\<forall>q tr. run_ops pf ops p0 = Inr (q, tr) \<longrightarrow>
              count_list tr (EvCloseChan Stdout) \<le> 1 \<and> count_list tr (EvCloseChan Stderr) \<le> 1
              \<and> chans_consistent q))"
proof -
  have 1: "chans_consistent p \<longrightarrow>
      (\<exists>p'. closeChannels p =
               Inr ((), p', if channelsClosed p then [] else [EvCloseChan Stdout, EvCloseChan Stderr])
           \<and> channelsClosed p' \<and> closed (stdout p') \<and> closed (stderr p')
           \<and> (channelsClosed p \<longrightarrow> p' = p)
           \<and> closeChannels p' = Inr ((), p', []))"
    by (auto simp: closeChannels_def close_chan_def chans_consistent_def)
  have 2: "NewWithBuffer n prog as = Inr p0 \<longrightarrow>
        run_ops pf ops p0 \<noteq> Inl CloseOfClosedChannel
        \<and> (\<forall>q tr. run_ops pf ops p0 = Inr (q, tr) \<longrightarrow>
              count_list tr (EvCloseChan Stdout) \<le> 1 \<and> count_list tr (EvCloseChan Stderr) \<le> 1
              \<and> chans_consistent q)"
  proof
    assume "NewWithBuffer n prog as = Inr p0"
    then have c: "chans_consistent p0" using NewWithBuffer_init by blast
    then have a: "run_ops pf ops p0 \<noteq> Inl CloseOfClosedChannel"
      by (rule run_ops_no_double_close)
    have b: "count_list tr (EvCloseChan Stdout) \<le> 1 \<and> count_list tr (EvCloseChan Stderr) \<le> 1
             \<and> chans_consistent q" if r: "run_ops pf ops p0 = Inr (q, tr)" for q tr
      using run_ops_chans [OF r c, of Stdout] run_ops_chans [OF r c, of Stderr]
      by (simp split: if_splits)
    from a b show "run_ops pf ops p0 \<noteq> Inl CloseOfClosedChannel
        \<and> (\<forall>q tr. run_ops pf ops p0 = Inr (q, tr) \<longrightarrow>
              count_list tr (EvCloseChan Stdout) \<le> 1 \<and> count_list tr (EvCloseChan Stderr) \<le> 1
              \<and> chans_consistent q)"
      by blast
  qed
  from 1 2 show ?thesis by blast
qed

theorem channels_closed_at_most_once_witness:
  "chans_consistent started
   \<and> closeChannels started =
       Inr ((), started\<lparr> stdout := \<lparr> capacity = 0, closed = True \<rparr>,
                         stderr := \<lparr> capacity = 0, closed = True \<rparr>,
                         channelsClosed := True \<rparr>,
            [EvCloseChan Stdout, EvCloseChan Stderr])
   \<and> chans_consistent cleaned
   \<and> closeChannels cleaned = Inr ((), cleaned, [])
   \<and> NewWithBuffer 0 ''echo'' [''test''] = Inr fresh
   \<and> run_ops Unix [OpRun env_ok, OpWatcher False, OpWatcher True, OpWatcher False] fresh =
       Inr (cleaned, [EvStart, EvGo (GoStreamOutput Stdout), EvGo (GoStreamOutput Stderr),
        EvGo GoWatcher, EvCloseStdin, EvCloseChan Stdout, EvCloseChan Stderr,
                      EvKill, EvCloseStdin, EvCloseStdin])
   \<and> count_list [EvStart, EvGo (GoStreamOutput Stdout), EvGo (GoStreamOutput Stderr),
        EvGo GoWatcher, EvCloseStdin, EvCloseChan Stdout, EvCloseChan Stderr,
                  EvKill, EvCloseStdin, EvCloseStdin] (EvCloseChan Stdout) \<le> 1
   \<and> count_list [EvStart, EvGo (GoStreamOutput Stdout), EvGo (GoStreamOutput Stderr),
        EvGo GoWatcher, EvCloseStdin, EvCloseChan Stdout, EvCloseChan Stderr,
                  EvKill, EvCloseStdin, EvCloseStdin] (EvCloseChan Stderr) \<le> 1"
proof -
  have cs: "chans_consistent started" and cc: "chans_consistent cleaned"
    and ns: "\<not> channelsClosed started" and nc: "channelsClosed cleaned"
    by (simp_all add: chans_consistent_def sample_defs)
  have e1: "closeChannels started =
       Inr ((), started\<lparr> stdout := \<lparr> capacity = 0, closed = True \<rparr>,
                         stderr := \<lparr> capacity = 0, closed = True \<rparr>,
                         channelsClosed := True \<rparr>,
            [EvCloseChan Stdout, EvCloseChan Stderr])"
    by (simp add: closeChannels_def close_chan_def sample_defs)
  from channels_closed_at_most_once [of cleaned] cc nc
  have e2: "closeChannels cleaned = Inr ((), cleaned, [])"
    by auto
  have n: "NewWithBuffer 0 ''echo'' [''test''] = Inr fresh"
    using fresh_New by (simp add: New_def)
  have h: "run_ops Unix [OpRun env_ok, OpWatcher False, OpWatcher True, OpWatcher False] fresh =
       Inr (cleaned, [EvStart, EvGo (GoStreamOutput Stdout), EvGo (GoStreamOutput Stderr),
        EvGo GoWatcher, EvCloseStdin, EvCloseChan Stdout, EvCloseChan Stderr,
                      EvKill, EvCloseStdin, EvCloseStdin])"
    by (simp add: started_Run watcher_started watcher_cleaned drop_value_def)
  from channels_closed_at_most_once [of _ 0 "''echo''" "[''test'']" fresh Unix
      "[OpRun env_ok, OpWatcher False, OpWatcher True, OpWatcher False]"] n h
  have k: "count_list [EvStart, EvGo (GoStreamOutput Stdout), EvGo (GoStreamOutput Stderr),
        EvGo GoWatcher, EvCloseStdin, EvCloseChan Stdout, EvCloseChan Stderr,
                  EvKill, EvCloseStdin, EvCloseStdin] (EvCloseChan Stdout) \<le> 1
   \<and> count_list [EvStart, EvGo (GoStreamOutput Stdout), EvGo (GoStreamOutput Stderr),
        EvGo GoWatcher, EvCloseStdin, EvCloseChan Stdout, EvCloseChan Stderr,
                  EvKill, EvCloseStdin, EvCloseStdin] (EvCloseChan Stderr) \<le> 1"
    by blast
  from cs cc e1 e2 n h k show ?thesis by blast
qed

end
